(* ===== verification/Prelude.thy ===== *)
theory Prelude
  imports Main "HOL-Library.Word"
begin

text \<open>
  Shared vocabulary of the development. The server keeps its runtime stores in plain
  JavaScript objects (\<open>onlineUsers\<close>, \<open>sessions\<close>) and the client keeps
  \<open>privateChats\<close> in one. A JavaScript object with string keys is modelled as an
  association list kept in insertion order: \<open>Object.values\<close> enumerates string
  keys in the order they were first created, assignment to an existing key keeps its
  position, and \<open>delete\<close> removes it. Reading a key that is not an own property
  falls through to \<open>Object.prototype\<close>, so a few names (\<open>toString\<close>,
  \<open>constructor\<close>, ...) read as truthy values on every object; \<open>jsval\<close> and
  \<open>inherited_prop\<close> model that.
  The collection \<open>obj_simps\<close> holds the characteristic equations of the object
  operations that the component proofs use.
\<close>

named_theorems obj_simps "characteristic equations of the JavaScript object model"

type_synonym sid = string
type_synonym token = string
type_synonym 'v jsobj = "(string \<times> 'v) list"

subsection \<open>JavaScript values\<close>

text \<open>
  The values a username slot of the server can hold: \<open>undefined\<close>, \<open>null\<close>, a
  string, or a member inherited from \<open>Object.prototype\<close> (a function or object,
  named by the property it was read from).
\<close>

datatype jsval = JUndefined | JNull | JStr string | JInherited string

fun truthy :: "jsval \<Rightarrow> bool" where
  "truthy JUndefined = False"
| "truthy JNull = False"
| "truthy (JStr s) = (s \<noteq> [])"
| "truthy (JInherited _) = True"

text \<open>The properties every plain object inherits from \<open>Object.prototype\<close>.\<close>

definition object_prototype_props :: "string list" where
  "object_prototype_props =
     [''constructor'', ''__defineGetter__'', ''__defineSetter__'', ''hasOwnProperty'',
      ''__lookupGetter__'', ''__lookupSetter__'', ''isPrototypeOf'',
      ''propertyIsEnumerable'', ''toString'', ''valueOf'', ''__proto__'',
      ''toLocaleString'']"

definition inherited_prop :: "string \<Rightarrow> jsval" where
  "inherited_prop k = (if k \<in> set object_prototype_props then JInherited k else JUndefined)"

subsection \<open>Objects as insertion-ordered association lists\<close>

definition obj_get :: "'v jsobj \<Rightarrow> string \<Rightarrow> 'v option" where
  "obj_get ob k = map_of ob k"

fun obj_set :: "string \<Rightarrow> 'v \<Rightarrow> 'v jsobj \<Rightarrow> 'v jsobj" where
  "obj_set k v [] = [(k, v)]"
| "obj_set k v ((k', v') # ps) =
     (if k = k' then (k, v) # ps else (k', v') # obj_set k v ps)"

definition obj_delete :: "string \<Rightarrow> 'v jsobj \<Rightarrow> 'v jsobj" where
  "obj_delete k ob = filter (\<lambda>p. fst p \<noteq> k) ob"

text \<open>\<open>ob[k].f = x\<close> on an own property \<open>k\<close>: the value is changed in place.\<close>

definition obj_modify :: "string \<Rightarrow> ('v \<Rightarrow> 'v) \<Rightarrow> 'v jsobj \<Rightarrow> 'v jsobj" where
  "obj_modify k f ob = map (\<lambda>(k', v). if k' = k then (k', f v) else (k', v)) ob"

abbreviation obj_keys :: "'v jsobj \<Rightarrow> string list" where
  "obj_keys ob \<equiv> map fst ob"

abbreviation obj_values :: "'v jsobj \<Rightarrow> 'v list" where
  "obj_values ob \<equiv> map snd ob"

subsection \<open>Lemmas on the object model\<close>

lemma obj_get_set [obj_simps]: "obj_get (obj_set k v ob) = (obj_get ob)(k \<mapsto> v)"
  by (induction ob) (auto simp: obj_get_def fun_eq_iff)

lemma obj_get_delete [obj_simps]: "obj_get (obj_delete k ob) = (obj_get ob)(k := None)"
  by (induction ob) (auto simp: obj_get_def obj_delete_def fun_eq_iff)

lemma obj_get_modify [obj_simps]:
  "obj_get (obj_modify k f ob) k' = (if k' = k then map_option f (obj_get ob k) else obj_get ob k')"
  by (induction ob) (auto simp: obj_get_def obj_modify_def)

lemma obj_keys_set [obj_simps]:
  "obj_keys (obj_set k v ob) = (if k \<in> set (obj_keys ob) then obj_keys ob else obj_keys ob @ [k])"
  by (induction ob) force+

lemma obj_keys_delete [obj_simps]: "obj_keys (obj_delete k ob) = filter (\<lambda>k'. k' \<noteq> k) (obj_keys ob)"
  by (induction ob) (auto simp: obj_delete_def)

lemma obj_keys_modify [obj_simps]: "obj_keys (obj_modify k f ob) = obj_keys ob"
  by (induction ob) (auto simp: obj_modify_def)

lemma obj_values_delete [obj_simps]: "obj_values (obj_delete k ob) = map snd (filter (\<lambda>p. fst p \<noteq> k) ob)"
  by (simp add: obj_delete_def)

lemma obj_get_None_iff [obj_simps]: "(obj_get ob k = None) = (k \<notin> set (obj_keys ob))"
  by (simp add: obj_get_def map_of_eq_None_iff)

lemma obj_get_in_values: "obj_get ob k = Some v \<Longrightarrow> v \<in> set (obj_values ob)"
  by (induction ob) (auto simp: obj_get_def split: if_splits)

lemma distinct_obj_keys_set [obj_simps]:
  "distinct (obj_keys (obj_set k v ob)) = distinct (obj_keys ob)"
  by (simp add: obj_keys_set)

lemma set_obj_values_modify:
  "set (obj_values (obj_modify k f ob)) = (\<lambda>(k', v). if k' = k then f v else v) ` set ob"
  by (induction ob) (auto simp: obj_modify_def)

lemma obj_modify_absent: "k \<notin> set (obj_keys ob) \<Longrightarrow> obj_modify k f ob = ob"
  by (induction ob) (auto simp: obj_modify_def)

lemma obj_modify_Cons [obj_simps]:
  "obj_modify k f ((k', v) # ob) = (if k' = k then (k', f v) else (k', v)) # obj_modify k f ob"
  by (simp add: obj_modify_def)

lemma filter_eq_singleton: "distinct xs \<Longrightarrow> x \<in> set xs \<Longrightarrow> filter (\<lambda>k. k = x) xs = [x]"
  by (induction xs) (auto simp: filter_empty_conv)

lemma dropWhile_twice [simp]: "dropWhile P (dropWhile P xs) = dropWhile P xs"
  by (induction xs) auto

text \<open>Stripping a suffix keeps a prefix that does not start with a dropped element.\<close>

lemma dropWhile_rev_prefix:
  assumes "dropWhile P xs = xs" shows "dropWhile P (rev (dropWhile P (rev xs))) = rev (dropWhile P (rev xs))"
proof -
  have xs: "xs = rev (dropWhile P (rev xs)) @ rev (takeWhile P (rev xs))"
    by (metis rev_append rev_rev_ident takeWhile_dropWhile_id)
  show ?thesis
  proof (cases "rev (dropWhile P (rev xs))")
    case (Cons y ys)
    with xs have "hd xs = y" by (metis append_Cons list.sel(1))
    moreover have "xs \<noteq> []" using Cons xs by auto
    ultimately have "\<not> P y" using assms dropWhile_eq_self_iff by metis
    with Cons show ?thesis by simp
  next
    case Nil
    show ?thesis unfolding Nil by simp
  qed
qed

lemma inherited_prop_truthy [simp]:
  "truthy (inherited_prop k) = (k \<in> set object_prototype_props)"
  by (simp add: inherited_prop_def)

end
