(* ===== verification/Credentials.thy ===== *)
theory Credentials
  imports Prelude
begin

text \<open>
  The credential store: the Mongoose \<open>User\<close> model of server.js (lines 31-37) with its
  unique index on \<open>username\<close>, and the two calls the handlers make on it,
  \<open>User.findOne({username})\<close> and \<open>User.create({username, passwordHash})\<close>.
  The collection is a map from username to the stored document, so the unique index
  is the map's key; \<open>create\<close> on a taken name fails with a duplicate-key error
  (MongoDB's E11000) instead of overwriting.
  Passwords are hashed with \<open>bcrypt.hash(password, 10)\<close> and checked with
  \<open>bcrypt.compare\<close>. The bcrypt digest function (EksBlowfish) is a parameter
  \<open>H :: kdf\<close> of cost, salt and password; the salt is an input drawn at hashing time,
  and the stored hash carries cost and salt, as a bcrypt hash string does.
\<close>

type_synonym kdf = "nat \<Rightarrow> string \<Rightarrow> string \<Rightarrow> string"

datatype bcrypt_hash = Bcrypt nat string string

record user =
  passwordHash :: bcrypt_hash
  createdAt :: nat

type_synonym user_store = "string \<rightharpoonup> user"

datatype db_error = DuplicateKey

definition bcrypt_hash :: "kdf \<Rightarrow> string \<Rightarrow> string \<Rightarrow> nat \<Rightarrow> bcrypt_hash" where
  "bcrypt_hash H salt pw cost = Bcrypt cost salt (H cost salt pw)"

fun bcrypt_compare :: "kdf \<Rightarrow> string \<Rightarrow> bcrypt_hash \<Rightarrow> bool" where
  "bcrypt_compare H pw (Bcrypt cost salt digest) = (H cost salt pw = digest)"

definition find_user :: "user_store \<Rightarrow> string \<Rightarrow> user option" where
  "find_user db u = db u"

definition create_user ::
  "user_store \<Rightarrow> string \<Rightarrow> bcrypt_hash \<Rightarrow> nat \<Rightarrow> db_error + user_store" where
  "create_user db u h now =
     (if u \<in> dom db then Inl DuplicateKey
      else Inr (db(u \<mapsto> \<lparr>passwordHash = h, createdAt = now\<rparr>)))"

subsection \<open>Lemmas\<close>

text \<open>Hash then compare: the password that was hashed is accepted, for every digest function.\<close>

lemma bcrypt_compare_hash: "bcrypt_compare H pw (bcrypt_hash H salt pw cost)"
  by (simp add: bcrypt_hash_def)

lemma create_user_Inr:
  "create_user db u h now = Inr db' \<longleftrightarrow>
     u \<notin> dom db \<and> db' = db(u \<mapsto> \<lparr>passwordHash = h, createdAt = now\<rparr>)"
  by (auto simp: create_user_def)

lemma create_user_Inl: "create_user db u h now = Inl e \<longleftrightarrow> u \<in> dom db \<and> e = DuplicateKey"
  by (auto simp: create_user_def)

lemma create_user_mono: "create_user db u h now = Inr db' \<Longrightarrow> db \<subseteq>\<^sub>m db'"
  by (auto simp: create_user_Inr map_le_def)

lemma find_create_user:
  "create_user db u h now = Inr db' \<Longrightarrow> find_user db' u = Some \<lparr>passwordHash = h, createdAt = now\<rparr>"
  by (simp add: create_user_Inr find_user_def)

end
