(* ===== verification/HexToken.thy ===== *)
theory HexToken
  imports Prelude
begin

text \<open>
  Session tokens (server.js line 101): \<open>crypto.randomBytes(24).toString("hex")\<close>.
  The 24 random bytes are an input of the model (a list of \<open>8 word\<close>); the encoding
  is Node's lowercase hexadecimal, two digits per byte, high nibble first. The lemmas
  show that the encoding is decodable (so distinct random bytes give distinct tokens),
  that a token is 48 characters long, and that a token never spells a property name
  inherited from \<open>Object.prototype\<close> (every such name contains a character outside
  \<open>0-9a-f\<close>), so \<open>sessions[token] = username\<close> always creates an own property.
\<close>

unbundle bit_operations_syntax

definition hex_digit :: "nat \<Rightarrow> char" where
  "hex_digit n = (if n < 10 then char_of (48 + n) else char_of (87 + n))"

definition byte_hex :: "8 word \<Rightarrow> string" where
  "byte_hex b = [hex_digit (unat (drop_bit 4 b)), hex_digit (unat (b AND 15))]"

definition hex_string :: "8 word list \<Rightarrow> string" where
  "hex_string bs = concat (map byte_hex bs)"

definition session_token :: "8 word list \<Rightarrow> token" where
  "session_token rnd = hex_string (take 24 rnd)"

definition hex_value :: "char \<Rightarrow> nat option" where
  "hex_value c = (let n = of_char c :: nat in
     if 48 \<le> n \<and> n < 58 then Some (n - 48)
     else if 97 \<le> n \<and> n < 103 then Some (n - 87) else None)"

fun hex_decode :: "string \<Rightarrow> 8 word list option" where
  "hex_decode [] = Some []"
| "hex_decode [c] = None"
| "hex_decode (c1 # c2 # cs) =
     (case (hex_value c1, hex_value c2, hex_decode cs) of
        (Some h, Some l, Some bs) \<Rightarrow> Some (word_of_nat (16 * h + l) # bs)
      | _ \<Rightarrow> None)"

subsection \<open>Nibbles\<close>

lemma hex_value_digit: "n < 16 \<Longrightarrow> hex_value (hex_digit n) = Some n"
  by (auto simp: hex_value_def hex_digit_def Let_def)

lemma unat_high_nibble: "unat (drop_bit 4 (b :: 8 word)) = unat b div 16"
  by (simp add: unat_drop_bit_eq drop_bit_eq_div unat_div_distrib)

lemma unat_low_nibble: "unat ((b :: 8 word) AND 15) = unat b mod 16"
proof -
  have "(b AND 15) = take_bit 4 b" by (simp add: take_bit_eq_mask mask_eq_exp_minus_1)
  then show ?thesis by (simp add: take_bit_eq_mod unat_mod_distrib)
qed

lemma high_nibble_bound: "unat (b :: 8 word) div 16 < 16"
proof -
  have "unat b < 256" using unsigned_less [of b] by simp
  then show ?thesis by simp
qed

subsection \<open>Decoding inverts encoding\<close>

lemma hex_decode_byte:
  "hex_decode (byte_hex b @ cs) = map_option (\<lambda>bs. b # bs) (hex_decode cs)"
proof -
  have "word_of_nat (16 * (unat b div 16) + unat b mod 16) = b" by simp
  then show ?thesis using high_nibble_bound [of b]
    by (simp add: byte_hex_def unat_high_nibble unat_low_nibble hex_value_digit
        split: option.splits)
qed

lemma hex_decode_hex_string: "hex_decode (hex_string bs) = Some bs"
  by (induction bs) (simp_all add: hex_string_def hex_decode_byte)

lemma hex_string_inj: "hex_string bs = hex_string bs' \<Longrightarrow> bs = bs'"
  by (metis hex_decode_hex_string option.inject)

lemma length_hex_string: "length (hex_string bs) = 2 * length bs"
  by (induction bs) (simp_all add: hex_string_def byte_hex_def)

lemma hex_decode_prototype_props:
  "p \<in> set object_prototype_props \<Longrightarrow> hex_decode p = None"
  by (auto simp: object_prototype_props_def hex_value_def)

lemma session_token_not_inherited:
  "session_token rnd \<notin> set object_prototype_props"
proof
  assume "session_token rnd \<in> set object_prototype_props"
  then have "hex_decode (session_token rnd) = None" by (rule hex_decode_prototype_props)
  then show False by (simp add: session_token_def hex_decode_hex_string)
qed

subsection \<open>Properties of session tokens\<close>

text \<open>
  C16. Token encoding round trip: a session token hex-decodes to exactly the 24 random
  bytes it was made from, so distinct random draws give distinct tokens.
\<close>

theorem session_token_decodes: "hex_decode (session_token rnd) = Some (take 24 rnd)"
  by (simp add: session_token_def hex_decode_hex_string)

text \<open>
  C17. Token size: from 24 random bytes (192 bits, above the 128 bits of spec 4.2) the
  token is 48 hexadecimal characters long.
\<close>

theorem session_token_length: "24 \<le> length rnd \<Longrightarrow> length (session_token rnd) = 48"
  by (simp add: session_token_def length_hex_string min_def)

theorem session_token_length_witness:
  "24 \<le> length (replicate 24 (0 :: 8 word)) \<and> length (session_token (replicate 24 0)) = 48"
  using session_token_length [of "replicate 24 0"] by simp

end
