(* ===== verification/Registry.thy ===== *)
theory Registry
  imports HexToken
begin

text \<open>
  The two runtime stores of server.js (lines 42-43) and the operations the handlers
  perform on them.
  \<^item> \<open>onlineUsers\<close>, the connection registry: socket id \<open>\<mapsto>\<close>
    \<open>{socketId, username}\<close>, a JavaScript object and so an insertion-ordered
    association list. \<open>username\<close> is \<open>null\<close> until the connection authenticates; it
    holds whatever the login handler stored, which is a \<open>jsval\<close>, since
    \<open>auto_login\<close> stores the value read from \<open>sessions\<close>.
  \<^item> \<open>sessions\<close>, the session registry: token \<open>\<mapsto>\<close> username. Its order is never
    observed, so it is a map; a read falls through to \<open>Object.prototype\<close>.
  \<open>bound_view\<close> is the presence view of a snapshot: the entries with a truthy username,
    which are the ones the client lists (script.js line 101).
\<close>

record entry =
  socketId :: sid
  username :: jsval

type_synonym online_users = "entry jsobj"
type_synonym session_store = "token \<rightharpoonup> string"

subsection \<open>Connection registry\<close>

definition register_conn :: "sid \<Rightarrow> online_users \<Rightarrow> online_users" where
  "register_conn sid ou = obj_set sid \<lparr>socketId = sid, username = JNull\<rparr> ou"

definition already_online :: "online_users \<Rightarrow> string \<Rightarrow> bool" where
  "already_online ou u = list_ex (\<lambda>e. username e = JStr u) (obj_values ou)"

text \<open>
  \<open>onlineUsers[socket.id].username = v\<close>: a TypeError (\<open>None\<close>) when the socket has
  no entry, since the read gives \<open>undefined\<close>.
\<close>

definition set_username :: "sid \<Rightarrow> jsval \<Rightarrow> online_users \<Rightarrow> online_users option" where
  "set_username sid v ou =
     (if sid \<in> set (obj_keys ou) then Some (obj_modify sid (\<lambda>e. e\<lparr>username := v\<rparr>) ou) else None)"

definition remove_conn :: "sid \<Rightarrow> online_users \<Rightarrow> online_users" where
  "remove_conn sid ou = obj_delete sid ou"

definition bound_view :: "entry list \<Rightarrow> entry list" where
  "bound_view es = filter (\<lambda>e. truthy (username e)) es"

text \<open>
  The check of the chat handlers (line 139, \<open>!user || !user.username\<close>) and the
  single-session-per-user invariant I1 of the spec: no username is bound (as a string,
  the way \<open>login\<close> compares it at line 94) on two connections.
\<close>

definition authenticated :: "online_users \<Rightarrow> sid \<Rightarrow> bool" where
  "authenticated ou sid = (case obj_get ou sid of None \<Rightarrow> False | Some e \<Rightarrow> truthy (username e))"

definition name_of :: "jsval \<Rightarrow> string list" where
  "name_of v = (case v of JStr u \<Rightarrow> [u] | _ \<Rightarrow> [])"

definition logged_in_names :: "online_users \<Rightarrow> string list" where
  "logged_in_names ou = concat (map (\<lambda>e. name_of (username e)) (obj_values ou))"

definition unique_logins :: "online_users \<Rightarrow> bool" where
  "unique_logins ou = distinct (logged_in_names ou)"

subsection \<open>Session registry\<close>

definition create_session :: "session_store \<Rightarrow> token \<Rightarrow> string \<Rightarrow> session_store" where
  "create_session ss tok u = ss(tok \<mapsto> u)"

definition session_lookup :: "session_store \<Rightarrow> token \<Rightarrow> jsval" where
  "session_lookup ss tok = (case ss tok of Some u \<Rightarrow> JStr u | None \<Rightarrow> inherited_prop tok)"

definition destroy_session :: "session_store \<Rightarrow> token \<Rightarrow> session_store" where
  "destroy_session ss tok = ss(tok := None)"

subsection \<open>Lemmas\<close>

lemma set_username_keys:
  "set_username sid v ou = Some ou' \<Longrightarrow> obj_keys ou' = obj_keys ou"
  by (auto simp: set_username_def obj_keys_modify split: if_splits)

lemma set_username_None [simp]:
  "(set_username sid v ou = None) = (sid \<notin> set (obj_keys ou))"
  by (simp add: set_username_def)

lemma obj_keys_register_conn [simp]:
  "sid \<notin> set (obj_keys ou) \<Longrightarrow> obj_keys (register_conn sid ou) = obj_keys ou @ [sid]"
  by (simp add: register_conn_def obj_keys_set)

lemma obj_keys_remove_conn [simp]:
  "obj_keys (remove_conn sid ou) = filter (\<lambda>k. k \<noteq> sid) (obj_keys ou)"
  by (simp add: remove_conn_def obj_keys_delete)

lemma bound_view_register_conn:
  "sid \<notin> set (obj_keys ou) \<Longrightarrow> bound_view (obj_values (register_conn sid ou)) = bound_view (obj_values ou)"
  by (induction ou) (auto simp: register_conn_def bound_view_def)

lemma obj_get_set_username:
  "set_username sid v ou = Some ou' \<Longrightarrow>
   obj_get ou' k = (if k = sid then map_option (\<lambda>e. e\<lparr>username := v\<rparr>) (obj_get ou k) else obj_get ou k)"
  by (auto simp: set_username_def obj_get_modify split: if_splits)

lemma logged_in_names_Cons:
  "logged_in_names ((k, e) # ou) = name_of (username e) @ logged_in_names ou"
  by (simp add: logged_in_names_def)

lemma already_online_iff: "already_online ou u = (u \<in> set (logged_in_names ou))"
  by (induction ou) (auto simp: already_online_def logged_in_names_def name_of_def split: jsval.splits)

lemma set_logged_in_names_modify:
  "set (logged_in_names (obj_modify sid (\<lambda>e. e\<lparr>username := v\<rparr>) ou))
     \<subseteq> set (name_of v) \<union> set (logged_in_names ou)"
proof (induction ou)
  case Nil
  then show ?case by (simp add: obj_modify_def logged_in_names_def)
next
  case (Cons p ou)
  then show ?case
    by (cases p) (auto simp: obj_modify_Cons logged_in_names_Cons)
qed

lemma set_logged_in_names_obj_set:
  "set (logged_in_names (obj_set k v ou)) \<subseteq> set (name_of (username v)) \<union> set (logged_in_names ou)"
proof (induction ou)
  case Nil
  then show ?case by (simp add: logged_in_names_def)
next
  case (Cons p ou)
  then show ?case by (cases p) (auto simp: logged_in_names_Cons)
qed

lemma set_logged_in_names_delete:
  "set (logged_in_names (obj_delete k ou)) \<subseteq> set (logged_in_names ou)"
proof (induction ou)
  case Nil
  then show ?case by (simp add: logged_in_names_def obj_delete_def)
next
  case (Cons p ou)
  then show ?case by (cases p) (auto simp: logged_in_names_Cons obj_delete_def)
qed

lemma name_of_session_lookup: "set (name_of (session_lookup ss tok)) \<subseteq> ran ss"
  by (auto simp: session_lookup_def name_of_def inherited_prop_def ran_def split: option.splits)

text \<open>Binding a name that no connection holds keeps every name on one connection at most.\<close>

lemma unique_logins_bind:
  "distinct (obj_keys ou) \<Longrightarrow> \<not> already_online ou u \<Longrightarrow> unique_logins ou \<Longrightarrow>
   unique_logins (obj_modify sid (\<lambda>e. e\<lparr>username := JStr u\<rparr>) ou)"
proof (induction ou)
  case Nil
  then show ?case by (simp add: obj_modify_def)
next
  case (Cons p ou)
  obtain k e where p: "p = (k, e)" by fastforce
  show ?case
  proof (cases "k = sid")
    case True
    with Cons.prems p have "obj_modify sid (\<lambda>e. e\<lparr>username := JStr u\<rparr>) ou = ou"
      by (simp add: obj_modify_absent)
    with Cons.prems p True show ?thesis
      by (simp add: obj_modify_Cons unique_logins_def logged_in_names_Cons already_online_iff name_of_def)
  next
    case False
    from Cons.prems p have IH: "unique_logins (obj_modify sid (\<lambda>e. e\<lparr>username := JStr u\<rparr>) ou)"
      by (intro Cons.IH) (auto simp: unique_logins_def logged_in_names_Cons already_online_iff)
    from Cons.prems p have "set (name_of (username e)) \<inter> insert u (set (logged_in_names ou)) = {}"
      by (auto simp: unique_logins_def logged_in_names_Cons already_online_iff name_of_def
          split: jsval.splits)
    with set_logged_in_names_modify [of sid "JStr u" ou]
    have "set (name_of (username e))
            \<inter> set (logged_in_names (obj_modify sid (\<lambda>e. e\<lparr>username := JStr u\<rparr>) ou)) = {}"
      by (auto simp: name_of_def)
    moreover have "distinct (name_of (username e))" by (simp add: name_of_def split: jsval.splits)
    ultimately show ?thesis using IH False p
      by (simp add: obj_modify_Cons unique_logins_def logged_in_names_Cons)
  qed
qed

lemma already_online_bind:
  "sid \<in> set (obj_keys ou) \<Longrightarrow> already_online (obj_modify sid (\<lambda>e. e\<lparr>username := JStr u\<rparr>) ou) u"
proof (induction ou)
  case (Cons p ou)
  then show ?case by (cases p) (auto simp: already_online_def obj_modify_Cons)
qed simp

text \<open>Round trip of the session registry (spec P5).\<close>

lemma session_lookup_create:
  "session_lookup (create_session ss tok u) tok = JStr u"
  by (simp add: session_lookup_def create_session_def)

lemma session_lookup_destroy:
  "session_lookup (destroy_session ss tok) tok = inherited_prop tok"
  by (simp add: session_lookup_def destroy_session_def)

lemma session_lookup_truthy:
  "truthy (session_lookup ss tok) \<longleftrightarrow>
     (\<exists>u. ss tok = Some u \<and> u \<noteq> []) \<or> (ss tok = None \<and> tok \<in> set object_prototype_props)"
  by (auto simp: session_lookup_def split: option.splits)

subsection \<open>Generated tokens read own properties only\<close>

text \<open>
  C18. Looking up a token produced by \<open>crypto.randomBytes(24).toString("hex")\<close> in
  \<open>sessions\<close> reads the stored username or \<open>undefined\<close>, never a member inherited
  from \<open>Object.prototype\<close>.
\<close>

theorem session_lookup_generated_token:
  "session_lookup ss (session_token rnd) =
     (case ss (session_token rnd) of Some u \<Rightarrow> JStr u | None \<Rightarrow> JUndefined)"
  using session_token_not_inherited [of rnd]
  by (simp add: session_lookup_def inherited_prop_def split: option.split)

end
