(* ===== verification/Server.thy ===== *)
theory Server
  imports Credentials Registry
begin

text \<open>
  The socket handlers of server.js (lines 48-169), one definition per handler, over an
  explicit server state:
  \<^item> \<open>users\<close>: the credential store (MongoDB);
  \<^item> \<open>online\<close>, \<open>sessions\<close>: the runtime stores \<open>onlineUsers\<close>, \<open>sessions\<close>;
  \<^item> \<open>sockets\<close>: the connected sockets of the socket.io namespace, in connection
    order (the transport: \<open>io.emit\<close> reaches exactly these, and a socket's room is
    its own id);
  \<^item> \<open>outbox\<close>: every delivery so far, as (recipient socket, message), in order;
  \<^item> \<open>pending\<close>: the continuations of the async handlers waiting on an \<open>await\<close>.
  \<open>register\<close> and \<open>login\<close> are async: the part before the first \<open>await\<close> runs
  when the event arrives, and each continuation is a \<open>task\<close> that runs later, at a
  moment the scheduler chooses (System.thy), against the state of that moment.
  The tasks cut the handlers at the points where shared state is read or written:
  \<open>RegFind\<close> is \<open>register\<close> after \<open>User.findOne\<close>, \<open>RegCreate\<close> after
  \<open>bcrypt.hash\<close> (it runs \<open>User.create\<close>), \<open>LoginFind\<close> is \<open>login\<close> after
  \<open>User.findOne\<close> and \<open>bcrypt.compare\<close> (both read only the user's own document),
  and \<open>LoginTail\<close> is the synchronous rest of \<open>login\<close> after the last await.
  The random bytes of a session token, the bcrypt salt and the clock are inputs of the
  continuation that draws them.
  A rejected promise (a failed database call, the duplicate-key error of
  \<open>User.create\<close>, the TypeError of \<open>onlineUsers[socket.id].username = ...\<close>
  after a disconnect) is not caught by any handler; it ends the process, and the state
  after that is \<open>restart\<close> of the state at the throw.
\<close>

datatype server_msg =
    RegisterSuccess string
  | AuthError string
  | LoginSuccess jsval token
  | LogoutSuccess
  | OnlineUsers "entry list"
  | PublicMessage jsval string
  | PrivateMessage jsval string sid

datatype client_event =
    Register string string
  | Login string string
  | AutoLogin token
  | Logout token
  | PublicMsg string
  | PrivateMsg sid string

datatype task =
    RegFind sid string string
  | RegCreate sid string bcrypt_hash
  | LoginFind sid string string
  | LoginTail sid string

record server =
  users :: user_store
  online :: online_users
  sessions :: session_store
  sockets :: "sid list"
  outbox :: "(sid \<times> server_msg) list"
  pending :: "task list"

definition init_server :: "user_store \<Rightarrow> server" where
  "init_server db = \<lparr>users = db, online = [], sessions = Map.empty, sockets = [],
     outbox = [], pending = []\<rparr>"

text \<open>
  An exception that escapes a handler: the register and login listeners are \<open>async\<close>
  and have no try/catch, so a rejected await or a TypeError after one is an unhandled
  promise rejection, which terminates the Node process (Node 15 and later), and the host
  starts a new one. \<open>restart s\<close> is the server after that: \<open>onlineUsers\<close> and
  \<open>sessions\<close> are empty, every connection is closed, the suspended handlers are gone;
  the User collection and the messages already delivered remain.
\<close>

definition restart :: "server \<Rightarrow> server" where
  "restart s = (init_server (users s))\<lparr>outbox := outbox s\<rparr>"

subsection \<open>Emitting\<close>

text \<open>\<open>socket.emit\<close>: to one socket, dropped once it has disconnected.\<close>

definition emit :: "sid \<Rightarrow> server_msg \<Rightarrow> server \<Rightarrow> server" where
  "emit sid m s = (if sid \<in> set (sockets s) then s\<lparr>outbox := outbox s @ [(sid, m)]\<rparr> else s)"

text \<open>\<open>io.emit\<close>: to every connected socket.\<close>

definition io_emit :: "server_msg \<Rightarrow> server \<Rightarrow> server" where
  "io_emit m s = s\<lparr>outbox := outbox s @ map (\<lambda>k. (k, m)) (sockets s)\<rparr>"

text \<open>\<open>io.to(room).emit\<close>: to the sockets in the room, i.e. the socket with that id.\<close>

definition io_to :: "sid \<Rightarrow> server_msg \<Rightarrow> server \<Rightarrow> server" where
  "io_to r m s = s\<lparr>outbox := outbox s @ map (\<lambda>k. (k, m)) (filter (\<lambda>k. k = r) (sockets s))\<rparr>"

definition spawn :: "task \<Rightarrow> server \<Rightarrow> server" where
  "spawn t s = s\<lparr>pending := pending s @ [t]\<rparr>"

definition broadcast_online :: "server \<Rightarrow> server" where
  "broadcast_online s = io_emit (OnlineUsers (obj_values (online s))) s"

subsection \<open>Connection\<close>

definition on_connection :: "sid \<Rightarrow> server \<Rightarrow> server" where
  "on_connection sid s =
     s\<lparr>sockets := sockets s @ [sid], online := register_conn sid (online s)\<rparr>"

subsection \<open>Register\<close>

definition on_register :: "sid \<Rightarrow> string \<Rightarrow> string \<Rightarrow> server \<Rightarrow> server" where
  "on_register sid u p s =
     (if u = [] \<or> p = [] then emit sid (AuthError ''Username and password required'') s
      else spawn (RegFind sid u p) s)"

definition register_found :: "kdf \<Rightarrow> sid \<Rightarrow> string \<Rightarrow> string \<Rightarrow> string \<Rightarrow> server \<Rightarrow> server" where
  "register_found H sid u p salt s =
     (case find_user (users s) u of
        Some _ \<Rightarrow> emit sid (AuthError ''Username already exists'') s
      | None \<Rightarrow> spawn (RegCreate sid u (bcrypt_hash H salt p 10)) s)"

definition register_create :: "sid \<Rightarrow> string \<Rightarrow> bcrypt_hash \<Rightarrow> nat \<Rightarrow> server \<Rightarrow> server" where
  "register_create sid u h now s =
     (case create_user (users s) u h now of
        Inl DuplicateKey \<Rightarrow> restart s
      | Inr db \<Rightarrow> emit sid (RegisterSuccess ''Registration successful'') (s\<lparr>users := db\<rparr>))"

subsection \<open>Login\<close>

definition on_login :: "sid \<Rightarrow> string \<Rightarrow> string \<Rightarrow> server \<Rightarrow> server" where
  "on_login sid u p s = spawn (LoginFind sid u p) s"

definition login_found :: "kdf \<Rightarrow> sid \<Rightarrow> string \<Rightarrow> string \<Rightarrow> server \<Rightarrow> server" where
  "login_found H sid u p s =
     (case find_user (users s) u of
        None \<Rightarrow> emit sid (AuthError ''Invalid username or password'') s
      | Some usr \<Rightarrow>
          if \<not> bcrypt_compare H p (passwordHash usr)
          then emit sid (AuthError ''Invalid username or password'') s
          else spawn (LoginTail sid u) s)"

definition login_tail :: "sid \<Rightarrow> string \<Rightarrow> 8 word list \<Rightarrow> server \<Rightarrow> server" where
  "login_tail sid u rnd s =
     (if already_online (online s) u then emit sid (AuthError ''User already logged in'') s
      else
        let tok = session_token rnd;
            s1 = s\<lparr>sessions := create_session (sessions s) tok u\<rparr>
        in case set_username sid (JStr u) (online s1) of
             None \<Rightarrow> restart s1
           | Some ou \<Rightarrow> broadcast_online (emit sid (LoginSuccess (JStr u) tok) (s1\<lparr>online := ou\<rparr>)))"

subsection \<open>Auto login and logout\<close>

text \<open>
  The \<open>None\<close> branch of \<open>set_username\<close> (line 117 on a socket without an entry) is
  not reached: events come from connected sockets, and each of them has its entry (C1).
\<close>

definition on_auto_login :: "sid \<Rightarrow> token \<Rightarrow> server \<Rightarrow> server" where
  "on_auto_login sid tok s =
     (let v = session_lookup (sessions s) tok in
      if \<not> truthy v then s
      else case set_username sid v (online s) of
             None \<Rightarrow> s
           | Some ou \<Rightarrow> broadcast_online (emit sid (LoginSuccess v tok) (s\<lparr>online := ou\<rparr>)))"

definition on_logout :: "sid \<Rightarrow> token \<Rightarrow> server \<Rightarrow> server" where
  "on_logout sid tok s =
     (let s1 = s\<lparr>sessions := destroy_session (sessions s) tok\<rparr>;
          s2 = (case set_username sid JNull (online s1) of
                  None \<Rightarrow> s1
                | Some ou \<Rightarrow> s1\<lparr>online := ou\<rparr>)
      in broadcast_online (emit sid LogoutSuccess s2))"

subsection \<open>Chat\<close>

definition on_public_message :: "sid \<Rightarrow> string \<Rightarrow> server \<Rightarrow> server" where
  "on_public_message sid msg s =
     (case obj_get (online s) sid of
        None \<Rightarrow> s
      | Some usr \<Rightarrow>
          if \<not> truthy (username usr) then s
          else io_emit (PublicMessage (username usr) msg) s)"

text \<open>
  \<open>toUser = onlineUsers[toSocketId]\<close> is truthy for an own entry (an object) and for a
  name inherited from \<open>Object.prototype\<close>.
\<close>

definition on_private_message :: "sid \<Rightarrow> sid \<Rightarrow> string \<Rightarrow> server \<Rightarrow> server" where
  "on_private_message sid to msg s =
     (case obj_get (online s) sid of
        None \<Rightarrow> s
      | Some fromUser \<Rightarrow>
          if obj_get (online s) to = None \<and> \<not> truthy (inherited_prop to) then s
          else io_to to (PrivateMessage (username fromUser) msg sid) s)"

subsection \<open>Disconnect\<close>

text \<open>socket.io removes the socket from the namespace before it runs the handler.\<close>

definition on_disconnect :: "sid \<Rightarrow> server \<Rightarrow> server" where
  "on_disconnect sid s =
     broadcast_online (s\<lparr>sockets := filter (\<lambda>k. k \<noteq> sid) (sockets s),
                         online := remove_conn sid (online s)\<rparr>)"

subsection \<open>Dispatch\<close>

fun handle_event :: "sid \<Rightarrow> client_event \<Rightarrow> server \<Rightarrow> server" where
  "handle_event sid (Register u p) s = on_register sid u p s"
| "handle_event sid (Login u p) s = on_login sid u p s"
| "handle_event sid (AutoLogin tok) s = on_auto_login sid tok s"
| "handle_event sid (Logout tok) s = on_logout sid tok s"
| "handle_event sid (PublicMsg msg) s = on_public_message sid msg s"
| "handle_event sid (PrivateMsg to msg) s = on_private_message sid to msg s"

fun run_task :: "kdf \<Rightarrow> task \<Rightarrow> string \<Rightarrow> 8 word list \<Rightarrow> nat \<Rightarrow> server \<Rightarrow> server" where
  "run_task H (RegFind sid u p) salt rnd now s = register_found H sid u p salt s"
| "run_task H (RegCreate sid u h) salt rnd now s = register_create sid u h now s"
| "run_task H (LoginFind sid u p) salt rnd now s = login_found H sid u p s"
| "run_task H (LoginTail sid u) salt rnd now s = login_tail sid u rnd s"

text \<open>
  A continuation whose awaited promise rejects (\<open>User.findOne\<close>, \<open>bcrypt.hash\<close>,
  \<open>User.create\<close>, \<open>bcrypt.compare\<close>, e.g. when the database is unreachable). None of the
  handlers catches it, so each case is a crash.
\<close>

fun task_fail :: "task \<Rightarrow> server \<Rightarrow> server" where
  "task_fail (RegFind sid u p) s = restart s"
| "task_fail (RegCreate sid u h) s = restart s"
| "task_fail (LoginFind sid u p) s = restart s"
| "task_fail (LoginTail sid u) s = restart s"

lemmas emit_defs = emit_def io_emit_def io_to_def spawn_def broadcast_online_def

subsection \<open>A fixture\<close>

text \<open>Two sockets \<open>A\<close> and \<open>B\<close> connected, neither authenticated, empty store.\<close>

definition two_sockets :: server where
  "two_sockets = on_connection ''B'' (on_connection ''A'' (init_server Map.empty))"

subsection \<open>Frame and emission lemmas\<close>

lemma emit_frame [simp]:
  "users (emit sid m s) = users s" "online (emit sid m s) = online s"
  "sessions (emit sid m s) = sessions s" "sockets (emit sid m s) = sockets s"
  "pending (emit sid m s) = pending s"
  "outbox (emit sid m s) = outbox s @ (if sid \<in> set (sockets s) then [(sid, m)] else [])"
  by (simp_all add: emit_def)

lemma io_emit_frame [simp]:
  "users (io_emit m s) = users s" "online (io_emit m s) = online s"
  "sessions (io_emit m s) = sessions s" "sockets (io_emit m s) = sockets s"
  "pending (io_emit m s) = pending s"
  "outbox (io_emit m s) = outbox s @ map (\<lambda>k. (k, m)) (sockets s)"
  by (simp_all add: io_emit_def)

lemma io_to_frame [simp]:
  "users (io_to r m s) = users s" "online (io_to r m s) = online s"
  "sessions (io_to r m s) = sessions s" "sockets (io_to r m s) = sockets s"
  "pending (io_to r m s) = pending s"
  "outbox (io_to r m s) = outbox s @ map (\<lambda>k. (k, m)) (filter (\<lambda>k. k = r) (sockets s))"
  by (simp_all add: io_to_def)

lemma spawn_frame [simp]:
  "users (spawn t s) = users s" "online (spawn t s) = online s"
  "sessions (spawn t s) = sessions s" "sockets (spawn t s) = sockets s"
  "pending (spawn t s) = pending s @ [t]" "outbox (spawn t s) = outbox s"
  by (simp_all add: spawn_def)

lemma broadcast_online_eq: "broadcast_online s = io_emit (OnlineUsers (obj_values (online s))) s"
  by (simp add: broadcast_online_def)

subsection \<open>Chat routing\<close>

text \<open>
  C5. Authentication gating of public chat (spec P6): a \<open>public_message\<close> event from a
  connection that is not authenticated changes nothing and delivers nothing.
\<close>

theorem public_message_unauthenticated_dropped:
  "\<not> authenticated (online s) sid \<Longrightarrow> on_public_message sid msg s = s"
  by (simp add: on_public_message_def authenticated_def split: option.splits)

theorem public_message_unauthenticated_dropped_witness:
  "\<not> authenticated (online two_sockets) ''A'' \<and> on_public_message ''A'' ''hi'' two_sockets = two_sockets"
proof -
  have h: "\<not> authenticated (online two_sockets) ''A''"
    by (simp add: two_sockets_def on_connection_def init_server_def register_conn_def authenticated_def obj_get_def)
  show ?thesis using public_message_unauthenticated_dropped [OF h] h by simp
qed

text \<open>
  C19. Public fan-out: a \<open>public_message\<close> from an authenticated connection is delivered,
  with the sender's name and the text unchanged, to every connected socket, the sender
  included (the self-echo of spec section 9), and changes nothing else.
\<close>

theorem public_message_reaches_all:
  "obj_get (online s) sid = Some usr \<Longrightarrow> truthy (username usr) \<Longrightarrow>
   on_public_message sid msg s =
     s\<lparr>outbox := outbox s @ map (\<lambda>k. (k, PublicMessage (username usr) msg)) (sockets s)\<rparr>"
  by (simp add: on_public_message_def io_emit_def)

theorem public_message_reaches_all_witness:
  "obj_get (online (two_sockets\<lparr>online := [(''A'', \<lparr>socketId = ''A'', username = JStr ''alice''\<rparr>)]\<rparr>)) ''A''
     = Some \<lparr>socketId = ''A'', username = JStr ''alice''\<rparr>
   \<and> truthy (username \<lparr>socketId = ''A'', username = JStr ''alice''\<rparr>)
   \<and> outbox (on_public_message ''A'' ''hi''
        (two_sockets\<lparr>online := [(''A'', \<lparr>socketId = ''A'', username = JStr ''alice''\<rparr>)]\<rparr>))
      = [(''A'', PublicMessage (JStr ''alice'') ''hi''), (''B'', PublicMessage (JStr ''alice'') ''hi'')]"
proof -
  let ?s = "two_sockets\<lparr>online := [(''A'', \<lparr>socketId = ''A'', username = JStr ''alice''\<rparr>)]\<rparr>"
  have h: "obj_get (online ?s) ''A'' = Some \<lparr>socketId = ''A'', username = JStr ''alice''\<rparr>"
    "truthy (username \<lparr>socketId = ''A'', username = JStr ''alice''\<rparr>)"
    by (simp_all add: obj_get_def)
  show ?thesis using public_message_reaches_all [OF h, where msg = "''hi''"] h
    by (simp add: two_sockets_def on_connection_def init_server_def)
qed

text \<open>
  C4. Dropped on absence (spec P4): a \<open>private_message\<close> addressed to a socket id that
  is not connected produces no delivery, no error to the sender and no change of state.
\<close>

theorem private_message_absent_target_dropped:
  "to \<notin> set (sockets s) \<Longrightarrow> on_private_message sid to msg s = s"
proof -
  assume "to \<notin> set (sockets s)"
  then have "filter (\<lambda>k. k = to) (sockets s) = []" by (auto simp: filter_empty_conv)
  then show ?thesis by (simp add: on_private_message_def io_to_def split: option.splits)
qed

theorem private_message_absent_target_dropped_witness:
  "''C'' \<notin> set (sockets two_sockets) \<and> on_private_message ''A'' ''C'' ''hi'' two_sockets = two_sockets"
proof -
  have h: "''C'' \<notin> set (sockets two_sockets)"
    by (simp add: two_sockets_def on_connection_def init_server_def)
  show ?thesis using private_message_absent_target_dropped [OF h] h by simp
qed

lemma private_message_live:
  assumes "obj_get (online s) sid = Some fromUser" and "to \<in> set (sockets s)"
    and "distinct (sockets s)" and "obj_keys (online s) = sockets s"
  shows "on_private_message sid to msg s =
           s\<lparr>outbox := outbox s @ [(to, PrivateMessage (username fromUser) msg sid)]\<rparr>"
proof -
  have "obj_get (online s) to \<noteq> None" using assms(2,4) by (simp add: obj_get_None_iff)
  moreover have "filter (\<lambda>k. k = to) (sockets s) = [to]"
    using assms(3,2) by (rule filter_eq_singleton)
  ultimately show ?thesis using assms(1) by (simp add: on_private_message_def io_to_def)
qed

subsection \<open>Login\<close>

lemma login_tail_already_online:
  "already_online (online s) u \<Longrightarrow> login_tail sid u rnd s = emit sid (AuthError ''User already logged in'') s"
  by (simp add: login_tail_def)

lemma login_tail_absent:
  "\<not> already_online (online s) u \<Longrightarrow> sid \<notin> set (obj_keys (online s)) \<Longrightarrow>
   login_tail sid u rnd s = restart (s\<lparr>sessions := (sessions s)(session_token rnd \<mapsto> u)\<rparr>)"
  by (simp add: login_tail_def create_session_def set_username_def Let_def)

lemma login_tail_bind:
  assumes "\<not> already_online (online s) u" and "sid \<in> set (obj_keys (online s))"
  shows "login_tail sid u rnd s =
     broadcast_online (emit sid (LoginSuccess (JStr u) (session_token rnd))
       (s\<lparr>sessions := (sessions s)(session_token rnd \<mapsto> u),
          online := obj_modify sid (\<lambda>e. e\<lparr>username := JStr u\<rparr>) (online s)\<rparr>))"
  using assms by (simp add: login_tail_def create_session_def set_username_def Let_def)

lemma login_tail_online:
  "sid \<in> set (obj_keys (online s)) \<Longrightarrow> online (login_tail sid u rnd s) =
     (if \<not> already_online (online s) u then obj_modify sid (\<lambda>e. e\<lparr>username := JStr u\<rparr>) (online s)
      else online s)"
  by (auto simp: login_tail_def set_username_def broadcast_online_def Let_def)

lemma login_tail_sessions:
  "sid \<in> set (obj_keys (online s)) \<Longrightarrow> sessions (login_tail sid u rnd s) =
     (if \<not> already_online (online s) u then (sessions s)(session_token rnd \<mapsto> u) else sessions s)"
  by (auto simp: login_tail_def set_username_def broadcast_online_def create_session_def Let_def)

subsection \<open>What each handler changes\<close>

lemma auto_login_fields:
  "online (on_auto_login sid tok s) =
     (if truthy (session_lookup (sessions s) tok)
      then obj_modify sid (\<lambda>e. e\<lparr>username := session_lookup (sessions s) tok\<rparr>) (online s)
      else online s)"
  "users (on_auto_login sid tok s) = users s"
  "sessions (on_auto_login sid tok s) = sessions s"
  "pending (on_auto_login sid tok s) = pending s"
  "sockets (on_auto_login sid tok s) = sockets s"
  by (auto simp: on_auto_login_def set_username_def broadcast_online_def obj_modify_absent Let_def)

lemma logout_fields:
  "online (on_logout sid tok s) = obj_modify sid (\<lambda>e. e\<lparr>username := JNull\<rparr>) (online s)"
  "users (on_logout sid tok s) = users s"
  "sessions (on_logout sid tok s) = (sessions s)(tok := None)"
  "pending (on_logout sid tok s) = pending s"
  "sockets (on_logout sid tok s) = sockets s"
  by (auto simp: on_logout_def set_username_def broadcast_online_def obj_modify_absent
      destroy_session_def Let_def)

lemma restart_fields [simp]:
  "users (restart s) = users s" "online (restart s) = []" "sessions (restart s) = Map.empty"
  "sockets (restart s) = []" "outbox (restart s) = outbox s" "pending (restart s) = []"
  by (simp_all add: restart_def init_server_def)

lemma login_tail_users [simp]: "users (login_tail sid u rnd s) = users s"
  by (auto simp: login_tail_def set_username_def broadcast_online_def Let_def)

lemma login_tail_frame:
  "sid \<in> set (obj_keys (online s)) \<Longrightarrow>
   pending (login_tail sid u rnd s) = pending s \<and> sockets (login_tail sid u rnd s) = sockets s"
  by (auto simp: login_tail_def set_username_def broadcast_online_def Let_def)

subsection \<open>Properties of the handlers\<close>

text \<open>
  C6. Single session per user under a login race (spec P1, I1): when two connections finish
  \<open>login\<close> for the same username and nobody holds it yet, the first tail binds its
  connection and stores one session; the second changes neither registry nor sessions and
  its socket receives exactly \<open>auth_error "User already logged in"\<close>.
\<close>
theorem login_race_one_wins:
  assumes "\<not> already_online (online s) u" and "sida \<in> set (obj_keys (online s))"
    and "sidb \<in> set (sockets s)"
  shows "online (login_tail sidb u rb (login_tail sida u ra s)) =
           obj_modify sida (\<lambda>e. e\<lparr>username := JStr u\<rparr>) (online s)
         \<and> sessions (login_tail sidb u rb (login_tail sida u ra s)) = (sessions s)(session_token ra \<mapsto> u)
         \<and> outbox (login_tail sidb u rb (login_tail sida u ra s)) =
           outbox (login_tail sida u ra s) @ [(sidb, AuthError ''User already logged in'')]"
proof -
  let ?s1 = "login_tail sida u ra s"
  have o: "online ?s1 = obj_modify sida (\<lambda>e. e\<lparr>username := JStr u\<rparr>) (online s)"
    using assms(1,2) by (simp add: login_tail_online)
  then have "already_online (online ?s1) u" using assms(2) by (simp add: already_online_bind)
  then have "login_tail sidb u rb ?s1 = emit sidb (AuthError ''User already logged in'') ?s1"
    by (rule login_tail_already_online)
  with o assms login_tail_frame [OF assms(2), of u ra] show ?thesis by (simp add: login_tail_sessions)
qed

theorem login_race_one_wins_witness:
  "\<not> already_online (online two_sockets) ''alice'' \<and> ''A'' \<in> set (obj_keys (online two_sockets))
   \<and> ''B'' \<in> set (sockets two_sockets)
   \<and> online (login_tail ''B'' ''alice'' [2] (login_tail ''A'' ''alice'' [1] two_sockets)) =
       [(''A'', \<lparr>socketId = ''A'', username = JStr ''alice''\<rparr>), (''B'', \<lparr>socketId = ''B'', username = JNull\<rparr>)]"
proof -
  have h: "\<not> already_online (online two_sockets) ''alice''" "''A'' \<in> set (obj_keys (online two_sockets))"
    "''B'' \<in> set (sockets two_sockets)"
    by (simp_all add: two_sockets_def on_connection_def init_server_def register_conn_def already_online_def)
  show ?thesis using login_race_one_wins [where ra = "[1]" and rb = "[2]", OF h] h
    by (simp add: two_sockets_def on_connection_def init_server_def register_conn_def obj_modify_def)
qed

text \<open>
  C8. Session round trip (spec P5): after a successful login the issued token looks up the
  user; after \<open>logout\<close> with that token, from any connection, it looks up nothing
  (\<open>undefined\<close>, since a hex token never names a prototype property).
\<close>
theorem login_session_roundtrip:
  assumes "\<not> already_online (online s) u" and "sid \<in> set (obj_keys (online s))"
  shows "session_lookup (sessions (login_tail sid u rnd s)) (session_token rnd) = JStr u
    \<and> session_lookup (sessions (on_logout sid' (session_token rnd) (login_tail sid u rnd s)))
        (session_token rnd) = JUndefined"
  using assms session_token_not_inherited [of rnd]
  by (simp add: login_tail_sessions logout_fields session_lookup_def inherited_prop_def)

theorem login_session_roundtrip_witness:
  "\<not> already_online (online two_sockets) ''alice'' \<and> ''A'' \<in> set (obj_keys (online two_sockets))
   \<and> session_lookup (sessions (login_tail ''A'' ''alice'' [0xAB] two_sockets)) ''ab'' = JStr ''alice''"
proof -
  have h: "\<not> already_online (online two_sockets) ''alice''" "''A'' \<in> set (obj_keys (online two_sockets))"
    by (simp_all add: two_sockets_def on_connection_def init_server_def register_conn_def already_online_def)
  have t: "session_token [0xAB] = ''ab''"
    by (simp add: session_token_def hex_string_def byte_hex_def hex_digit_def char_of_eq_iff)
  show ?thesis using login_session_roundtrip [OF h, where rnd = "[0xAB]"] h t by simp
qed

text \<open>
  C12. Registration and login agree: once \<open>register\<close> has stored the bcrypt hash of
  \<open>p\<close> for a new name, the credential check of \<open>login\<close> with \<open>p\<close> succeeds and
  the handler goes on to its final step, for every digest function.
\<close>
theorem register_then_login_accepted:
  assumes "u \<notin> dom (users s)"
  shows "login_found H sid' u p (register_create sid u (bcrypt_hash H salt p 10) now s)
           = spawn (LoginTail sid' u) (register_create sid u (bcrypt_hash H salt p 10) now s)"
proof -
  let ?s1 = "register_create sid u (bcrypt_hash H salt p 10) now s"
  have "find_user (users ?s1) u = Some \<lparr>passwordHash = bcrypt_hash H salt p 10, createdAt = now\<rparr>"
    using assms by (simp add: register_create_def create_user_def find_user_def)
  then show ?thesis by (simp add: login_found_def bcrypt_compare_hash)
qed

theorem register_then_login_accepted_witness:
  "''alice'' \<notin> dom (users two_sockets)
   \<and> pending (login_found (\<lambda>c salt p. p) ''B'' ''alice'' ''pw''
        (register_create ''A'' ''alice'' (bcrypt_hash (\<lambda>c salt p. p) ''salt'' ''pw'' 10) 0 two_sockets))
      = [LoginTail ''B'' ''alice'']"
proof -
  have h: "''alice'' \<notin> dom (users two_sockets)"
    by (simp add: two_sockets_def on_connection_def init_server_def)
  show ?thesis
    using register_then_login_accepted [where H = "\<lambda>c salt p. p" and sid' = "''B''" and p = "''pw''"
        and sid = "''A''" and salt = "''salt''" and now = 0, OF h] h
    by (simp add: two_sockets_def on_connection_def init_server_def register_create_def create_user_def)
qed

text \<open>
  C13. A registration that loses the race to the unique index crashes the server (spec 4.1
  asks that DuplicateUsername be surfaced): when the name was taken between \<open>findOne\<close>
  and \<open>create\<close>, the duplicate-key rejection of \<open>User.create\<close> is unhandled, so the
  registering socket gets no reply, every connection is closed and every session is lost;
  only the stored users and the messages already sent remain.
\<close>
theorem register_duplicate_create_crashes:
  assumes "u \<in> dom (users s)"
  shows "outbox (register_create sid u h now s) = outbox s
    \<and> users (register_create sid u h now s) = users s
    \<and> sockets (register_create sid u h now s) = [] \<and> online (register_create sid u h now s) = []
    \<and> sessions (register_create sid u h now s) = Map.empty \<and> pending (register_create sid u h now s) = []"
  using assms by (simp add: register_create_def create_user_def)

theorem register_duplicate_create_crashes_witness:
  "''alice'' \<in> dom (users (two_sockets\<lparr>users := [''alice'' \<mapsto> \<lparr>passwordHash = Bcrypt 10 ''s'' ''x'', createdAt = 0\<rparr>]\<rparr>))
   \<and> sockets (register_create ''A'' ''alice'' (Bcrypt 10 ''t'' ''y'') 1
        (two_sockets\<lparr>users := [''alice'' \<mapsto> \<lparr>passwordHash = Bcrypt 10 ''s'' ''x'', createdAt = 0\<rparr>]\<rparr>)) = []
   \<and> sockets (two_sockets\<lparr>users := [''alice'' \<mapsto> \<lparr>passwordHash = Bcrypt 10 ''s'' ''x'', createdAt = 0\<rparr>]\<rparr>) = [''A'', ''B'']"
proof -
  have h: "''alice'' \<in> dom (users (two_sockets\<lparr>users := [''alice'' \<mapsto> \<lparr>passwordHash = Bcrypt 10 ''s'' ''x'', createdAt = 0\<rparr>]\<rparr>))"
    by simp
  show ?thesis using register_duplicate_create_crashes [OF h, where sid = "''A''" and h = "Bcrypt 10 ''t'' ''y''" and now = 1] h
    by (simp add: two_sockets_def on_connection_def init_server_def)
qed

text \<open>
  C15. \<open>auto_login\<close> with a token that names a property of \<open>Object.prototype\<close>
  (here \<open>constructor\<close>) authenticates the connection: \<open>sessions[token]\<close> reads the
  inherited function, which is truthy, and it becomes the connection's username.
\<close>
theorem auto_login_inherited_name_authenticates:
  assumes "sid \<in> set (obj_keys (online s))" and "sessions s ''constructor'' = None"
  shows "authenticated (online (on_auto_login sid ''constructor'' s)) sid
    \<and> map_option username (obj_get (online (on_auto_login sid ''constructor'' s)) sid)
        = Some (JInherited ''constructor'')"
proof -
  have v: "session_lookup (sessions s) ''constructor'' = JInherited ''constructor''"
    using assms(2) by (simp add: session_lookup_def inherited_prop_def object_prototype_props_def)
  have "obj_get (online s) sid \<noteq> None" using assms(1) by (simp add: obj_get_None_iff)
  with v show ?thesis
    by (auto simp: auto_login_fields obj_get_modify authenticated_def)
qed

theorem auto_login_inherited_name_authenticates_witness:
  "''A'' \<in> set (obj_keys (online two_sockets)) \<and> sessions two_sockets ''constructor'' = None
   \<and> authenticated (online (on_auto_login ''A'' ''constructor'' two_sockets)) ''A''"
proof -
  have h: "''A'' \<in> set (obj_keys (online two_sockets))" "sessions two_sockets ''constructor'' = None"
    by (simp_all add: two_sockets_def on_connection_def init_server_def register_conn_def)
  show ?thesis using auto_login_inherited_name_authenticates [OF h] h by simp
qed

text \<open>
  C20. Logout: the connection is no longer authenticated, the token is no longer a
  session, and the socket receives \<open>logout_success\<close> followed by the presence
  broadcast to every socket.
\<close>
theorem logout_unbinds:
  assumes "sid \<in> set (obj_keys (online s))"
  shows "\<not> authenticated (online (on_logout sid tok s)) sid
    \<and> sessions (on_logout sid tok s) tok = None
    \<and> outbox (on_logout sid tok s) = outbox s @ (if sid \<in> set (sockets s) then [(sid, LogoutSuccess)] else [])
         @ map (\<lambda>k. (k, OnlineUsers (obj_values (online (on_logout sid tok s))))) (sockets s)"
proof -
  have "obj_get (online s) sid \<noteq> None" using assms by (simp add: obj_get_None_iff)
  then have "\<not> authenticated (online (on_logout sid tok s)) sid"
    by (auto simp: logout_fields obj_get_modify authenticated_def)
  moreover have "outbox (on_logout sid tok s) = outbox s @ (if sid \<in> set (sockets s) then [(sid, LogoutSuccess)] else [])
         @ map (\<lambda>k. (k, OnlineUsers (obj_values (online (on_logout sid tok s))))) (sockets s)"
    using assms by (simp add: on_logout_def set_username_def broadcast_online_def Let_def)
  ultimately show ?thesis by (simp add: logout_fields)
qed

theorem logout_unbinds_witness:
  "''A'' \<in> set (obj_keys (online two_sockets))
   \<and> \<not> authenticated (online (on_logout ''A'' ''ab'' two_sockets)) ''A''
   \<and> sessions (on_logout ''A'' ''ab'' two_sockets) ''ab'' = None"
proof -
  have h: "''A'' \<in> set (obj_keys (online two_sockets))"
    by (simp add: two_sockets_def on_connection_def init_server_def register_conn_def)
  show ?thesis using logout_unbinds [OF h, where tok = "''ab''"] h by simp
qed

end
