(* ===== verification/System.thy ===== *)
theory System
  imports Server
begin

text \<open>
  The event loop of the server as a step relation over \<open>server\<close> states: a fresh socket
  connects, a connected socket sends an event, a pending continuation resumes or fails
  (and the process restarts), a socket disconnects. It holds the executable scheduler
  whose runs compute the witness states, the invariants of the registry (I3), of presence
  (P2) and of authentication (I2), each preserved by every step, and the properties of
  the running server that follow from them.
\<close>

definition drop_task :: "nat \<Rightarrow> server \<Rightarrow> server" where
  "drop_task i s = s\<lparr>pending := take i (pending s) @ drop (Suc i) (pending s)\<rparr>"

inductive sys_step :: "kdf \<Rightarrow> server \<Rightarrow> server \<Rightarrow> bool" for H :: kdf where
  connect: "sid \<notin> set (sockets s) \<Longrightarrow> sid \<notin> fst ` set (outbox s) \<Longrightarrow>
    sys_step H s (on_connection sid s)"
| event: "sid \<in> set (sockets s) \<Longrightarrow> sys_step H s (handle_event sid ev s)"
| resume: "i < length (pending s) \<Longrightarrow>
    sys_step H s (run_task H (pending s ! i) salt rnd now (drop_task i s))"
| abort: "i < length (pending s) \<Longrightarrow> sys_step H s (task_fail (pending s ! i) (drop_task i s))"
| disconnect: "sid \<in> set (sockets s) \<Longrightarrow> sys_step H s (on_disconnect sid s)"

inductive reach :: "kdf \<Rightarrow> user_store \<Rightarrow> server \<Rightarrow> bool" for H :: kdf and db :: user_store where
  init: "reach H db (init_server db)"
| step: "reach H db s \<Longrightarrow> sys_step H s s' \<Longrightarrow> reach H db s'"

text \<open>
  \<open>abort\<close> is a pending continuation whose awaited promise rejects (\<open>User.findOne\<close>,
  \<open>bcrypt\<close> or \<open>User.create\<close> fails, e.g. the database is unreachable): the
  async handler throws, nothing catches the rejection, and the process terminates and is
  restarted (\<open>task_fail\<close>).
  An executable scheduler: a schedule names each step (which socket connects, sends which
  event or disconnects, which pending continuation resumes and with which random bytes,
  salt and time, or fails); a step whose guard fails stops the run with \<open>None\<close>.
\<close>

datatype sched =
    SConnect sid
  | SEvent sid client_event
  | SResume nat string "8 word list" nat
  | SAbort nat
  | SDisconnect sid

fun sched_step :: "kdf \<Rightarrow> sched \<Rightarrow> server \<Rightarrow> server option" where
  "sched_step H (SConnect sid) s =
     (if sid \<notin> set (sockets s) \<and> sid \<notin> set (map fst (outbox s))
      then Some (on_connection sid s) else None)"
| "sched_step H (SEvent sid ev) s =
     (if sid \<in> set (sockets s) then Some (handle_event sid ev s) else None)"
| "sched_step H (SResume i salt rnd now) s =
     (if i < length (pending s) then Some (run_task H (pending s ! i) salt rnd now (drop_task i s))
      else None)"
| "sched_step H (SAbort i) s =
     (if i < length (pending s) then Some (task_fail (pending s ! i) (drop_task i s)) else None)"
| "sched_step H (SDisconnect sid) s =
     (if sid \<in> set (sockets s) then Some (on_disconnect sid s) else None)"

fun run_sched :: "kdf \<Rightarrow> server \<Rightarrow> sched list \<Rightarrow> server option" where
  "run_sched H s [] = Some s"
| "run_sched H s (st # sts) =
     (case sched_step H st s of None \<Rightarrow> None | Some s' \<Rightarrow> run_sched H s' sts)"

subsection \<open>Invariants\<close>

definition conn_ids :: "online_users \<Rightarrow> (sid \<times> sid) list" where
  "conn_ids ou = map (\<lambda>(k, e). (k, socketId e)) ou"

definition registry_ok :: "server \<Rightarrow> bool" where
  "registry_ok s \<longleftrightarrow> obj_keys (online s) = sockets s \<and> distinct (sockets s)
     \<and> list_all (\<lambda>(k, i). i = k) (conn_ids (online s))"

fun task_ok :: "user_store \<Rightarrow> task \<Rightarrow> bool" where
  "task_ok db (LoginTail sid u) = (u \<in> dom db)"
| "task_ok db _ = True"

definition auth_ok :: "server \<Rightarrow> bool" where
  "auth_ok s \<longleftrightarrow> ran (sessions s) \<subseteq> dom (users s)
     \<and> set (logged_in_names (online s)) \<subseteq> dom (users s)
     \<and> list_all (task_ok (users s)) (pending s)"

fun presence_payload :: "server_msg \<Rightarrow> entry list option" where
  "presence_payload (OnlineUsers es) = Some es"
| "presence_payload _ = None"

text \<open>
  A plain message neither carries a presence list nor changes who the receiving client
  is logged in as.
\<close>

fun plain_msg :: "server_msg \<Rightarrow> bool" where
  "plain_msg (OnlineUsers _) = False"
| "plain_msg (LoginSuccess _ _) = False"
| "plain_msg LogoutSuccess = False"
| "plain_msg _ = True"

fun last_online_users :: "sid \<Rightarrow> (sid \<times> server_msg) list \<Rightarrow> entry list option" where
  "last_online_users k [] = None"
| "last_online_users k ((r, m) # ms) =
     (case last_online_users k ms of
        Some es \<Rightarrow> Some es
      | None \<Rightarrow> if r = k then presence_payload m else None)"

definition presence_ok :: "server \<Rightarrow> bool" where
  "presence_ok s \<longleftrightarrow> (\<forall>k \<in> set (sockets s). \<forall>es.
     last_online_users k (outbox s) = Some es \<longrightarrow> bound_view es = bound_view (obj_values (online s)))"

definition quiet :: "server \<Rightarrow> server \<Rightarrow> bool" where
  "quiet s s' \<longleftrightarrow> sockets s' = sockets s
     \<and> bound_view (obj_values (online s')) = bound_view (obj_values (online s))
     \<and> (\<exists>ns. outbox s' = outbox s @ ns \<and> list_all (\<lambda>(r, m). plain_msg m) ns)"

definition loud :: "server \<Rightarrow> bool" where
  "loud s' \<longleftrightarrow> (\<exists>s''. s' = broadcast_online s'')"

definition crashed :: "server \<Rightarrow> bool" where
  "crashed s' \<longleftrightarrow> (\<exists>s''. s' = restart s'')"

text \<open>
  Fixtures: the scenario of spec section 8 as a schedule. The digest function is the
  identity on the password (any digest would do), \<open>alice\<close> and \<open>bob\<close> are
  registered, and the token bytes are one byte each, so the tokens read \<open>ab\<close> and
  \<open>cd\<close>. \<open>dup_sched\<close> is the schedule of the auto-login finding: a second socket
  presents alice's token while alice is still online.
\<close>

definition scenario_kdf :: kdf where
  "scenario_kdf cost salt pw = pw"

definition scenario_db :: user_store where
  "scenario_db = [''alice'' \<mapsto> \<lparr>passwordHash = Bcrypt 10 ''s1'' ''pw1'', createdAt = 0\<rparr>,
                  ''bob'' \<mapsto> \<lparr>passwordHash = Bcrypt 10 ''s2'' ''pw2'', createdAt = 0\<rparr>]"

definition scenario_sched :: "sched list" where
  "scenario_sched =
    [SConnect ''A'', SConnect ''B'',
     SEvent ''A'' (Login ''alice'' ''pw1''), SResume 0 [] [] 0, SResume 0 [] [0xAB] 0,
     SEvent ''B'' (Login ''bob'' ''pw2''), SResume 0 [] [] 0, SResume 0 [] [0xCD] 0,
     SEvent ''B'' (PrivateMsg ''A'' ''hi'')]"

definition scenario_state :: server where
  "scenario_state = the (run_sched scenario_kdf (init_server scenario_db) scenario_sched)"

definition dup_sched :: "sched list" where
  "dup_sched =
    [SConnect ''A'', SConnect ''B'',
     SEvent ''A'' (Login ''alice'' ''pw1''), SResume 0 [] [] 0, SResume 0 [] [0xAB] 0,
     SEvent ''B'' (AutoLogin ''ab'')]"

definition dup_state :: server where
  "dup_state = the (run_sched scenario_kdf (init_server scenario_db) dup_sched)"

subsection \<open>The connection skeleton\<close>

lemma conn_ids_modify [simp]:
  "conn_ids (obj_modify k (\<lambda>e. e\<lparr>username := v\<rparr>) ou) = conn_ids ou"
  by (induction ou) (auto simp: conn_ids_def obj_modify_def)

lemma conn_ids_set_username:
  "set_username sid v ou = Some ou' \<Longrightarrow> conn_ids ou' = conn_ids ou"
  by (auto simp: set_username_def split: if_splits)

lemma obj_keys_conn_ids: "obj_keys ou = map fst (conn_ids ou)"
  by (induction ou) (auto simp: conn_ids_def)

lemma handle_event_skeleton:
  "conn_ids (online (handle_event sid ev s)) = conn_ids (online s)
   \<and> sockets (handle_event sid ev s) = sockets s"
  by (cases ev)
     (auto simp: on_register_def on_login_def on_auto_login_def on_logout_def
        on_public_message_def on_private_message_def broadcast_online_def Let_def
        dest: conn_ids_set_username split: option.splits)

lemma task_fail_restart [simp]: "task_fail t s = restart s"
  by (cases t) simp_all

lemma crashed_restart [simp]: "crashed (restart s)"
  by (auto simp: crashed_def)

lemma run_task_skeleton:
  "crashed (run_task H t salt rnd now s)
   \<or> conn_ids (online (run_task H t salt rnd now s)) = conn_ids (online s)
     \<and> sockets (run_task H t salt rnd now s) = sockets s"
  by (cases t)
     (auto simp: register_found_def register_create_def login_found_def
        login_tail_def broadcast_online_def Let_def
        dest: conn_ids_set_username split: option.splits sum.splits db_error.splits)

subsection \<open>The registry mirrors the transport (I3)\<close>

lemma registry_ok_skeleton:
  "conn_ids (online s') = conn_ids (online s) \<Longrightarrow> sockets s' = sockets s \<Longrightarrow>
   registry_ok s \<Longrightarrow> registry_ok s'"
  by (simp add: registry_ok_def obj_keys_conn_ids)

lemma registry_ok_init: "registry_ok (init_server db)"
  by (simp add: registry_ok_def init_server_def conn_ids_def)

lemma registry_ok_crashed: "crashed s' \<Longrightarrow> registry_ok s'"
  by (auto simp: crashed_def registry_ok_def conn_ids_def)

lemma conn_ids_register_conn:
  "sid \<notin> set (obj_keys ou) \<Longrightarrow> conn_ids (register_conn sid ou) = conn_ids ou @ [(sid, sid)]"
  by (induction ou) (auto simp: conn_ids_def register_conn_def)

lemma conn_ids_remove_conn:
  "conn_ids (remove_conn sid ou) = filter (\<lambda>p. fst p \<noteq> sid) (conn_ids ou)"
  by (induction ou) (auto simp: conn_ids_def remove_conn_def obj_delete_def)

lemma registry_ok_connection:
  "registry_ok s \<Longrightarrow> sid \<notin> set (sockets s) \<Longrightarrow> registry_ok (on_connection sid s)"
  by (simp add: registry_ok_def on_connection_def conn_ids_register_conn obj_keys_conn_ids)

lemma map_fst_filter_fst:
  "map fst (filter (\<lambda>p. fst p \<noteq> k) xs) = filter (\<lambda>k'. k' \<noteq> k) (map fst xs)"
  by (induction xs) auto

lemma registry_ok_disconnect:
  "registry_ok s \<Longrightarrow> registry_ok (on_disconnect sid s)"
  by (auto simp: registry_ok_def on_disconnect_def broadcast_online_def conn_ids_remove_conn
      obj_keys_conn_ids list_all_iff map_fst_filter_fst)

lemma drop_task_frame [simp]:
  "users (drop_task i s) = users s" "online (drop_task i s) = online s"
  "sessions (drop_task i s) = sessions s" "sockets (drop_task i s) = sockets s"
  "outbox (drop_task i s) = outbox s"
  by (simp_all add: drop_task_def)

lemma sys_step_registry_ok: "sys_step H s s' \<Longrightarrow> registry_ok s \<Longrightarrow> registry_ok s'"
proof (induction rule: sys_step.induct)
  case (connect sid s)
  then show ?case by (simp add: registry_ok_connection)
next
  case (event sid s ev)
  then show ?case using handle_event_skeleton [of sid ev s] by (blast intro: registry_ok_skeleton)
next
  case (resume i s salt rnd now)
  have "registry_ok (drop_task i s)"
    using resume.prems by (rule registry_ok_skeleton [rotated 2]) simp_all
  then show ?case using run_task_skeleton by (blast intro: registry_ok_skeleton registry_ok_crashed)
next
  case (abort i s)
  then show ?case by (simp add: registry_ok_crashed)
next
  case (disconnect sid s)
  then show ?case by (simp add: registry_ok_disconnect)
qed

lemma reach_registry_ok: "reach H db s \<Longrightarrow> registry_ok s"
  by (induction rule: reach.induct) (auto intro: registry_ok_init sys_step_registry_ok)

subsection \<open>Presence: every live socket holds the current bound list (P2)\<close>

lemma last_online_users_append:
  "last_online_users k (ms @ ns) =
     (case last_online_users k ns of None \<Rightarrow> last_online_users k ms | Some es \<Rightarrow> Some es)"
  by (induction ms) (auto split: option.splits)

lemma last_online_users_broadcast:
  "last_online_users k (map (\<lambda>k'. (k', OnlineUsers vs)) ks) = (if k \<in> set ks then Some vs else None)"
  by (induction ks) auto

lemma plain_msg_presence: "plain_msg m \<Longrightarrow> presence_payload m = None"
  by (cases m) simp_all

lemma last_online_users_quiet:
  "list_all (\<lambda>(r, m). plain_msg m) ns \<Longrightarrow>
   last_online_users k (ms @ ns) = last_online_users k ms"
proof -
  assume "list_all (\<lambda>(r, m). plain_msg m) ns"
  then have "last_online_users k ns = None"
    by (induction ns) (auto simp: plain_msg_presence split: option.splits)
  then show ?thesis by (simp add: last_online_users_append)
qed

lemma last_online_users_fresh: "k \<notin> fst ` set ms \<Longrightarrow> last_online_users k ms = None"
  by (induction ms) (auto split: option.splits)

lemma quietI:
  "sockets s' = sockets s \<Longrightarrow> online s' = online s \<Longrightarrow> outbox s' = outbox s @ ns \<Longrightarrow>
   list_all (\<lambda>(r, m). plain_msg m) ns \<Longrightarrow> quiet s s'"
  by (auto simp: quiet_def)

lemma quiet_refl: "quiet s s"
  by (rule quietI [where ns = "[]"]) simp_all

lemma quiet_emit: "plain_msg m \<Longrightarrow> quiet s (emit sid m s)"
  by (rule quietI [where ns = "if sid \<in> set (sockets s) then [(sid, m)] else []"]) simp_all

lemma quiet_spawn: "quiet s (spawn t s)"
  by (rule quietI [where ns = "[]"]) simp_all

lemma presence_ok_quiet: "presence_ok s \<Longrightarrow> quiet s s' \<Longrightarrow> presence_ok s'"
  by (auto simp: presence_ok_def quiet_def last_online_users_quiet)

lemma presence_ok_broadcast: "presence_ok (broadcast_online s)"
  by (simp add: presence_ok_def broadcast_online_def last_online_users_append last_online_users_broadcast)

lemma handle_event_presence:
  "loud (handle_event sid ev s) \<or> quiet s (handle_event sid ev s)"
proof (cases ev)
  case (Register u p)
  then show ?thesis by (simp add: on_register_def quiet_emit quiet_spawn)
next
  case (Login u p)
  then show ?thesis by (simp add: on_login_def quiet_spawn)
next
  case (AutoLogin tok)
  then show ?thesis by (auto simp: on_auto_login_def loud_def quiet_refl Let_def split: option.splits)
next
  case (Logout tok)
  then show ?thesis by (auto simp: on_logout_def loud_def Let_def)
next
  case (PublicMsg msg)
  then show ?thesis
    by (auto simp: on_public_message_def quiet_refl list_all_iff
        intro: quietI [where ns = "map (\<lambda>k. (k, PublicMessage _ msg)) (sockets s)"] split: option.splits)
next
  case (PrivateMsg to msg)
  then show ?thesis
    by (auto simp: on_private_message_def quiet_refl list_all_iff
        intro: quietI [where ns = "map (\<lambda>k. (k, PrivateMessage _ msg sid)) (filter (\<lambda>k. k = to) (sockets s))"]
        split: option.splits)
qed

lemma run_task_presence:
  "loud (run_task H t salt rnd now s) \<or> quiet s (run_task H t salt rnd now s)
   \<or> crashed (run_task H t salt rnd now s)"
proof (cases t)
  case (RegFind sid u p)
  then show ?thesis by (simp add: register_found_def quiet_emit quiet_spawn split: option.splits)
next
  case (RegCreate sid u h)
  then show ?thesis
    by (auto simp: register_create_def
        intro: quietI [where ns = "if sid \<in> set (sockets s) then [(sid, RegisterSuccess _)] else []"]
        split: sum.splits db_error.splits)
next
  case (LoginFind sid u p)
  then show ?thesis by (simp add: login_found_def quiet_emit quiet_spawn split: option.splits)
next
  case (LoginTail sid u)
  show ?thesis
  proof (cases "already_online (online s) u")
    case True
    with LoginTail show ?thesis by (simp add: login_tail_already_online quiet_emit)
  next
    case False
    with LoginTail show ?thesis
      by (cases "sid \<in> set (obj_keys (online s))")
         (auto simp: login_tail_absent login_tail_bind loud_def)
  qed
qed

lemma presence_ok_connection:
  assumes "registry_ok s" and "sid \<notin> set (sockets s)" and "sid \<notin> fst ` set (outbox s)"
    and "presence_ok s"
  shows "presence_ok (on_connection sid s)"
proof -
  have "sid \<notin> set (obj_keys (online s))" using assms(1,2) by (simp add: registry_ok_def)
  then have "bound_view (obj_values (register_conn sid (online s))) = bound_view (obj_values (online s))"
    by (rule bound_view_register_conn)
  moreover have "outbox (on_connection sid s) = outbox s"
    and "online (on_connection sid s) = register_conn sid (online s)"
    and "sockets (on_connection sid s) = sockets s @ [sid]"
    by (simp_all add: on_connection_def)
  ultimately show ?thesis using assms(3,4)
    unfolding presence_ok_def by (auto simp: last_online_users_fresh)
qed

lemma presence_ok_crashed: "crashed s' \<Longrightarrow> presence_ok s'"
  by (auto simp: crashed_def presence_ok_def)

lemma presence_ok_after:
  "loud s' \<or> quiet s s' \<or> crashed s' \<Longrightarrow> presence_ok s \<Longrightarrow> presence_ok s'"
  by (auto simp: loud_def presence_ok_broadcast intro: presence_ok_quiet presence_ok_crashed)

lemma sys_step_presence_ok:
  "sys_step H s s' \<Longrightarrow> registry_ok s \<Longrightarrow> presence_ok s \<Longrightarrow> presence_ok s'"
proof (induction rule: sys_step.induct)
  case (connect sid s)
  then show ?case by (simp add: presence_ok_connection)
next
  case (event sid s ev)
  show ?case using handle_event_presence event.prems(2) by (blast intro: presence_ok_after)
next
  case (resume i s salt rnd now)
  have "presence_ok (drop_task i s)" using resume.prems(2) by (simp add: presence_ok_def)
  then show ?case by (rule presence_ok_after [OF run_task_presence])
next
  case (abort i s)
  then show ?case by (simp add: presence_ok_def)
next
  case (disconnect sid s)
  then show ?case by (simp add: on_disconnect_def presence_ok_broadcast)
qed

lemma reach_presence_ok: "reach H db s \<Longrightarrow> presence_ok s"
proof (induction rule: reach.induct)
  case init
  then show ?case by (simp add: presence_ok_def init_server_def)
next
  case (step s s')
  then show ?case using reach_registry_ok by (blast intro: sys_step_presence_ok)
qed

subsection \<open>Authentication state refers to registered users (I2)\<close>

lemma task_ok_mono: "task_ok db t \<Longrightarrow> db \<subseteq>\<^sub>m db' \<Longrightarrow> task_ok db' t"
  by (cases t) (auto dest: map_le_implies_dom_le)

lemma auth_okI:
  assumes "auth_ok s" and "users s \<subseteq>\<^sub>m users s'"
    and "ran (sessions s') \<subseteq> ran (sessions s) \<union> A"
    and "set (logged_in_names (online s')) \<subseteq> set (logged_in_names (online s)) \<union> A"
    and "set (pending s') \<subseteq> set (pending s) \<union> T"
    and "A \<subseteq> dom (users s')" and "\<forall>t \<in> T. task_ok (users s') t"
  shows "auth_ok s'"
proof -
  have d: "dom (users s) \<subseteq> dom (users s')" using assms(2) by (rule map_le_implies_dom_le)
  have "\<forall>t \<in> set (pending s). task_ok (users s') t"
    using assms(1,2) by (auto simp: auth_ok_def list_all_iff intro: task_ok_mono)
  then show ?thesis using assms d unfolding auth_ok_def list_all_iff by blast
qed

lemma auth_ok_same_sessions:
  "auth_ok s \<Longrightarrow> users s \<subseteq>\<^sub>m users s' \<Longrightarrow> sessions s' = sessions s \<Longrightarrow> online s' = online s \<Longrightarrow>
   set (pending s') \<subseteq> set (pending s) \<union> T \<Longrightarrow> \<forall>t \<in> T. task_ok (users s') t \<Longrightarrow> auth_ok s'"
  by (rule auth_okI [where A = "{}"]) auto

lemma auth_ok_emits [simp]:
  "auth_ok (emit sid m s) = auth_ok s" "auth_ok (io_emit m s) = auth_ok s"
  "auth_ok (io_to r m s) = auth_ok s" "auth_ok (broadcast_online s) = auth_ok s"
  "auth_ok (spawn t s) = (auth_ok s \<and> task_ok (users s) t)"
  by (simp_all add: auth_ok_def broadcast_online_def)

lemma auto_login_auth_ok:
  assumes a: "auth_ok s" shows "auth_ok (on_auto_login sid tok s)"
proof -
  let ?v = "session_lookup (sessions s) tok"
  have "ran (sessions s) \<subseteq> dom (users s)" using a by (simp add: auth_ok_def)
  with name_of_session_lookup [of "sessions s" tok]
  have "set (name_of ?v) \<subseteq> dom (users s)" by blast
  moreover have "set (logged_in_names (online (on_auto_login sid tok s)))
                   \<subseteq> set (logged_in_names (online s)) \<union> set (name_of ?v)"
    using set_logged_in_names_modify [of sid ?v "online s"] by (auto simp: auto_login_fields)
  ultimately show ?thesis
    by (intro auth_okI [OF a, where A = "set (name_of ?v)" and T = "{}"])
       (simp_all add: auto_login_fields)
qed

lemma logout_auth_ok:
  assumes a: "auth_ok s" shows "auth_ok (on_logout sid tok s)"
proof -
  have "ran ((sessions s)(tok := None)) \<subseteq> ran (sessions s)" by (auto simp: ran_def)
  moreover have "set (logged_in_names (online (on_logout sid tok s))) \<subseteq> set (logged_in_names (online s))"
    using set_logged_in_names_modify [of sid JNull "online s"] by (simp add: logout_fields name_of_def)
  ultimately show ?thesis
    by (intro auth_okI [OF a, where A = "{}" and T = "{}"]) (simp_all add: logout_fields)
qed

lemma handle_event_auth_ok: "auth_ok s \<Longrightarrow> auth_ok (handle_event sid ev s)"
  by (cases ev) (simp_all add: on_register_def on_login_def on_public_message_def
      on_private_message_def auto_login_auth_ok logout_auth_ok split: option.split)

lemma auth_ok_restart [simp]: "auth_ok (restart s)"
  by (simp add: auth_ok_def logged_in_names_def)

lemma login_tail_auth_ok:
  assumes a: "auth_ok s" and u: "u \<in> dom (users s)"
  shows "auth_ok (login_tail sid u rnd s)"
proof (cases "\<not> already_online (online s) u \<and> sid \<in> set (obj_keys (online s))")
  case False
  with a show ?thesis
    by (cases "already_online (online s) u") (simp_all add: login_tail_already_online login_tail_absent)
next
  case True
  have "ran ((sessions s)(session_token rnd \<mapsto> u)) \<subseteq> ran (sessions s) \<union> {u}"
    by (auto simp: ran_def)
  moreover have "set (logged_in_names (online (login_tail sid u rnd s)))
                   \<subseteq> set (logged_in_names (online s)) \<union> {u}"
    using set_logged_in_names_modify [of sid "JStr u" "online s"] True
    by (auto simp: login_tail_online name_of_def)
  ultimately show ?thesis using u True
    by (intro auth_okI [OF a, where A = "{u}" and T = "{}"])
       (auto simp: login_tail_sessions login_tail_frame)
qed

lemma register_create_auth_ok:
  assumes a: "auth_ok s" shows "auth_ok (register_create sid u h now s)"
proof (cases "create_user (users s) u h now")
  case (Inl e)
  with a show ?thesis by (cases e) (simp add: register_create_def)
next
  case (Inr db)
  then have "users s \<subseteq>\<^sub>m db" by (rule create_user_mono)
  then have "auth_ok (s\<lparr>users := db\<rparr>)"
    by (intro auth_ok_same_sessions [OF a, where T = "{}"]) simp_all
  with Inr show ?thesis by (simp add: register_create_def)
qed

lemma run_task_auth_ok:
  "auth_ok s \<Longrightarrow> task_ok (users s) t \<Longrightarrow> auth_ok (run_task H t salt rnd now s)"
  by (cases t) (auto simp: register_found_def login_found_def find_user_def register_create_auth_ok
      login_tail_auth_ok split: option.split)

lemma auth_ok_drop_task:
  "auth_ok s \<Longrightarrow> i < length (pending s) \<Longrightarrow>
   auth_ok (drop_task i s) \<and> task_ok (users s) (pending s ! i)"
proof -
  assume a: "auth_ok s" and i: "i < length (pending s)"
  have "set (take i (pending s) @ drop (Suc i) (pending s)) \<subseteq> set (pending s)"
    by (auto dest: in_set_takeD in_set_dropD)
  moreover have "pending s ! i \<in> set (pending s)" using i by simp
  ultimately show ?thesis using a by (auto simp: auth_ok_def drop_task_def list_all_iff)
qed

lemma sys_step_auth_ok: "sys_step H s s' \<Longrightarrow> auth_ok s \<Longrightarrow> auth_ok s'"
proof (induction rule: sys_step.induct)
  case (connect sid s)
  have "set (logged_in_names (register_conn sid (online s))) \<subseteq> set (logged_in_names (online s))"
    using set_logged_in_names_obj_set [of sid "\<lparr>socketId = sid, username = JNull\<rparr>" "online s"]
    by (simp add: register_conn_def name_of_def)
  then show ?case
    by (intro auth_okI [OF connect.prems, where A = "{}" and T = "{}"]) (simp_all add: on_connection_def)
next
  case (event sid s ev)
  then show ?case by (simp add: handle_event_auth_ok)
next
  case (resume i s salt rnd now)
  then show ?case using auth_ok_drop_task [OF resume.prems resume.hyps]
    by (auto intro: run_task_auth_ok)
next
  case (abort i s)
  then show ?case by simp
next
  case (disconnect sid s)
  have "set (logged_in_names (remove_conn sid (online s))) \<subseteq> set (logged_in_names (online s))"
    by (simp add: remove_conn_def set_logged_in_names_delete)
  then show ?case
    by (intro auth_okI [OF disconnect.prems, where A = "{}" and T = "{}"])
       (simp_all add: on_disconnect_def broadcast_online_def)
qed

lemma reach_auth_ok: "reach H db s \<Longrightarrow> auth_ok s"
proof (induction rule: reach.induct)
  case init
  then show ?case by (simp add: auth_ok_def init_server_def logged_in_names_def)
next
  case (step s s')
  show ?case by (rule sys_step_auth_ok [OF step.hyps(2) step.IH])
qed

lemma handle_event_users_mono: "users s \<subseteq>\<^sub>m users (handle_event sid ev s)"
  by (cases ev) (simp_all add: on_register_def on_login_def on_public_message_def
      on_private_message_def auto_login_fields logout_fields split: option.split)

lemma run_task_users_mono: "users s \<subseteq>\<^sub>m users (run_task H t salt rnd now s)"
  by (cases t) (auto simp: register_found_def login_found_def register_create_def
      split: option.split sum.split db_error.split intro: create_user_mono)

lemma sys_step_users_mono: "sys_step H s s' \<Longrightarrow> users s \<subseteq>\<^sub>m users s'"
  by (induction rule: sys_step.induct)
     (simp_all add: handle_event_users_mono on_connection_def on_disconnect_def
       broadcast_online_def, metis drop_task_frame(1) run_task_users_mono)

subsection \<open>Every run of the executable scheduler is a run of the step relation\<close>

lemma abort_restart: "i < length (pending s) \<Longrightarrow> sys_step H s (restart (drop_task i s))"
  using sys_step.abort [of i s H] by simp

lemma sched_step_sound: "sched_step H st s = Some s' \<Longrightarrow> sys_step H s s'"
  by (cases st) (auto intro: sys_step.intros abort_restart split: if_splits)

lemma run_sched_reach: "reach H db s \<Longrightarrow> run_sched H s sts = Some s' \<Longrightarrow> reach H db s'"
proof (induction sts arbitrary: s)
  case Nil
  then show ?case by simp
next
  case (Cons st sts)
  then obtain s1 where s1: "sched_step H st s = Some s1" and rest: "run_sched H s1 sts = Some s'"
    by (auto split: option.splits)
  from Cons.prems(1) sched_step_sound [OF s1] have "reach H db s1" by (rule reach.step)
  then show ?case using rest by (rule Cons.IH)
qed

lemma run_sched_Some_reach:
  "\<not> Option.is_none (run_sched H (init_server db) sts) \<Longrightarrow>
   reach H db (the (run_sched H (init_server db) sts))"
  by (rule run_sched_reach [OF reach.init]) (simp add: Option.is_none_def)

lemma scenario_reach: "reach scenario_kdf scenario_db scenario_state"
  unfolding scenario_state_def by (rule run_sched_Some_reach) code_simp

lemma dup_reach: "reach scenario_kdf scenario_db dup_state"
  unfolding dup_state_def by (rule run_sched_Some_reach) code_simp

subsection \<open>Properties of the running server\<close>

text \<open>
  C1. The connection registry mirrors the transport (spec I3): in every reachable state
  the keys of \<open>onlineUsers\<close> are exactly the connected sockets, in connection order,
  without repetition, and every entry records its own socket id.
\<close>

theorem reach_online_keys_are_sockets:
  assumes "reach H db s"
  shows "obj_keys (online s) = sockets s \<and> distinct (sockets s)
         \<and> (\<forall>(k, e) \<in> set (online s). socketId e = k)"
proof -
  have "registry_ok s" using assms by (rule reach_registry_ok)
  then show ?thesis
    by (auto simp: registry_ok_def conn_ids_def list_all_iff)
qed

theorem reach_online_keys_are_sockets_witness:
  "reach scenario_kdf scenario_db scenario_state \<and> obj_keys (online scenario_state) = [''A'', ''B'']
   \<and> obj_keys (online scenario_state) = sockets scenario_state \<and> distinct (sockets scenario_state)
   \<and> list_all (\<lambda>(k, e). socketId e = k) (online scenario_state)"
proof -
  have "obj_keys (online scenario_state) = [''A'', ''B'']"
    unfolding scenario_state_def by code_simp
  then show ?thesis using reach_online_keys_are_sockets [OF scenario_reach] scenario_reach
    by (simp add: list_all_iff)
qed

text \<open>
  C2. Presence consistency (spec P2): in every reachable state, for every connected
  socket, the last \<open>online_users\<close> list the socket received lists the same
  authenticated connections, with the same names and in the same order, as the
  registry holds now.
\<close>

theorem reach_presence_consistent:
  assumes "reach H db s" and "k \<in> set (sockets s)" and "last_online_users k (outbox s) = Some es"
  shows "bound_view es = bound_view (obj_values (online s))"
  using reach_presence_ok [OF assms(1)] assms(2,3) by (simp add: presence_ok_def)

theorem reach_presence_consistent_witness:
  "reach scenario_kdf scenario_db scenario_state \<and> ''B'' \<in> set (sockets scenario_state)
   \<and> last_online_users ''B'' (outbox scenario_state)
        = Some [\<lparr>socketId = ''A'', username = JStr ''alice''\<rparr>, \<lparr>socketId = ''B'', username = JStr ''bob''\<rparr>]
   \<and> bound_view [\<lparr>socketId = ''A'', username = JStr ''alice''\<rparr>, \<lparr>socketId = ''B'', username = JStr ''bob''\<rparr>]
        = bound_view (obj_values (online scenario_state))"
proof -
  have k: "''B'' \<in> set (sockets scenario_state)" unfolding scenario_state_def by code_simp
  have l: "last_online_users ''B'' (outbox scenario_state)
        = Some [\<lparr>socketId = ''A'', username = JStr ''alice''\<rparr>, \<lparr>socketId = ''B'', username = JStr ''bob''\<rparr>]"
    unfolding scenario_state_def by code_simp
  show ?thesis using reach_presence_consistent [OF scenario_reach k l] scenario_reach k l by simp
qed

text \<open>
  C3. Private delivery (spec P3): in every reachable state, a \<open>private_message\<close> from a
  connection that has an entry to a connected socket is delivered to that socket only,
  with sender name, text and sender socket id unchanged, and nothing else changes.
\<close>

theorem reach_private_message_delivered:
  assumes "reach H db s" and "obj_get (online s) sid = Some fromUser" and "to \<in> set (sockets s)"
  shows "on_private_message sid to msg s =
           s\<lparr>outbox := outbox s @ [(to, PrivateMessage (username fromUser) msg sid)]\<rparr>"
proof -
  have "registry_ok s" using assms(1) by (rule reach_registry_ok)
  then show ?thesis using assms(2,3) by (intro private_message_live) (simp_all add: registry_ok_def)
qed

theorem reach_private_message_delivered_witness:
  "reach scenario_kdf scenario_db scenario_state
   \<and> obj_get (online scenario_state) ''A'' = Some \<lparr>socketId = ''A'', username = JStr ''alice''\<rparr>
   \<and> ''B'' \<in> set (sockets scenario_state)
   \<and> outbox (on_private_message ''A'' ''B'' ''yo'' scenario_state)
       = outbox scenario_state @ [(''B'', PrivateMessage (JStr ''alice'') ''yo'' ''A'')]"
proof -
  have a: "obj_get (online scenario_state) ''A'' = Some \<lparr>socketId = ''A'', username = JStr ''alice''\<rparr>"
    unfolding scenario_state_def by code_simp
  have b: "''B'' \<in> set (sockets scenario_state)" unfolding scenario_state_def by code_simp
  show ?thesis using reach_private_message_delivered [OF scenario_reach a b, where msg = "''yo''"]
      scenario_reach a b by simp
qed

text \<open>
  C7. The single-session-per-user invariant I1 does not hold: \<open>auto_login\<close> binds the
  token's user without the "already online" check that \<open>login\<close> makes. In the run
  \<open>dup_sched\<close> (alice logs in on \<open>A\<close>, then socket \<open>B\<close> presents her token
  \<open>ab\<close>) a reachable state binds alice on both connections.
\<close>

theorem auto_login_duplicate_binding_reachable:
  "reach scenario_kdf scenario_db dup_state \<and> \<not> unique_logins (online dup_state)
   \<and> obj_values (online dup_state)
       = [\<lparr>socketId = ''A'', username = JStr ''alice''\<rparr>, \<lparr>socketId = ''B'', username = JStr ''alice''\<rparr>]"
proof -
  have "\<not> unique_logins (online dup_state)" unfolding dup_state_def by code_simp
  moreover have "obj_values (online dup_state)
       = [\<lparr>socketId = ''A'', username = JStr ''alice''\<rparr>, \<lparr>socketId = ''B'', username = JStr ''alice''\<rparr>]"
    unfolding dup_state_def by code_simp
  ultimately show ?thesis using dup_reach by simp
qed

text \<open>
  C9. Sessions refer to registered users (spec I2): in every reachable state each
  session token maps to a username that the credential store holds.
\<close>

theorem reach_sessions_registered:
  assumes "reach H db s" and "sessions s tok = Some u"
  shows "u \<in> dom (users s)"
  using reach_auth_ok [OF assms(1)] assms(2) by (auto simp: auth_ok_def ran_def)

theorem reach_sessions_registered_witness:
  "reach scenario_kdf scenario_db scenario_state \<and> sessions scenario_state ''ab'' = Some ''alice''
   \<and> ''alice'' \<in> dom (users scenario_state)"
proof -
  have h: "sessions scenario_state ''ab'' = Some ''alice''" unfolding scenario_state_def by code_simp
  show ?thesis using reach_sessions_registered [OF scenario_reach h] scenario_reach h by simp
qed

text \<open>
  C10. Every connection bound to a string username is bound to a registered user, in
  every reachable state (whether it got there by \<open>login\<close> or by \<open>auto_login\<close>).
\<close>

theorem reach_bound_users_registered:
  assumes "reach H db s" and "obj_get (online s) k = Some e" and "username e = JStr u"
  shows "u \<in> dom (users s)"
proof -
  have "e \<in> set (obj_values (online s))" using assms(2) by (rule obj_get_in_values)
  with assms(3) have "u \<in> set (logged_in_names (online s))"
    by (force simp: logged_in_names_def name_of_def)
  with reach_auth_ok [OF assms(1)] show ?thesis by (auto simp: auth_ok_def)
qed

theorem reach_bound_users_registered_witness:
  "reach scenario_kdf scenario_db scenario_state
   \<and> obj_get (online scenario_state) ''B'' = Some \<lparr>socketId = ''B'', username = JStr ''bob''\<rparr>
   \<and> ''bob'' \<in> dom (users scenario_state)"
proof -
  have h: "obj_get (online scenario_state) ''B'' = Some \<lparr>socketId = ''B'', username = JStr ''bob''\<rparr>"
    unfolding scenario_state_def by code_simp
  show ?thesis using reach_bound_users_registered [OF scenario_reach h] scenario_reach h by simp
qed

text \<open>
  C11. The credential store is append-only: no step, racing registrations included,
  removes a user or changes a stored password hash.
\<close>

theorem sys_step_keeps_users:
  assumes "sys_step H s s'" and "users s u = Some usr"
  shows "users s' u = Some usr"
  using sys_step_users_mono [OF assms(1)] assms(2) by (auto simp: map_le_def dom_def)

theorem sys_step_keeps_users_witness:
  "sys_step scenario_kdf (init_server scenario_db) (on_connection ''A'' (init_server scenario_db))
   \<and> users (init_server scenario_db) ''alice'' = Some \<lparr>passwordHash = Bcrypt 10 ''s1'' ''pw1'', createdAt = 0\<rparr>
   \<and> users (on_connection ''A'' (init_server scenario_db)) ''alice''
       = Some \<lparr>passwordHash = Bcrypt 10 ''s1'' ''pw1'', createdAt = 0\<rparr>"
proof -
  have st: "sys_step scenario_kdf (init_server scenario_db) (on_connection ''A'' (init_server scenario_db))"
    by (rule sys_step.connect) (simp_all add: init_server_def)
  have u: "users (init_server scenario_db) ''alice'' = Some \<lparr>passwordHash = Bcrypt 10 ''s1'' ''pw1'', createdAt = 0\<rparr>"
    by (simp add: init_server_def scenario_db_def)
  show ?thesis using sys_step_keeps_users [OF st u] st u by simp
qed

end
