(* ===== verification/Liveness.thy ===== *)
theory Liveness
  imports System
begin

text \<open>
  Runs of the event loop. The liveness lemmas exhibit, for a login or a registration that
  the store accepts, the run that delivers the reply. The crash lemmas show the other
  side of the missing try/catch: a login whose socket disconnects while bcrypt runs, and
  a login whose database lookup rejects, each end in a restart of the whole server.
\<close>

text \<open>A reachable fixture: socket \<open>A\<close> connected to a server whose store holds alice and bob.\<close>

definition conn_A :: server where
  "conn_A = the (run_sched scenario_kdf (init_server scenario_db) [SConnect ''A''])"

text \<open>
  After the scenario of spec section 8 (alice on \<open>A\<close>, bob on \<open>B\<close>), a third socket
  \<open>C\<close> sends a login whose database lookup is still pending.
\<close>

definition login_pending :: server where
  "login_pending = the (run_sched scenario_kdf (init_server scenario_db)
     (scenario_sched @ [SConnect ''C'', SEvent ''C'' (Login ''bob'' ''guess'')]))"

text \<open>Sockets \<open>A\<close> and \<open>B\<close> connected, bob logged in on \<open>B\<close> with token \<open>cd\<close>.\<close>

definition two_logged :: server where
  "two_logged = the (run_sched scenario_kdf (init_server scenario_db)
     [SConnect ''A'', SConnect ''B'', SEvent ''B'' (Login ''bob'' ''pw2''), SResume 0 [] [] 0,
      SResume 0 [] [0xCD] 0])"

text \<open>
  One connection sends \<open>register\<close> and then \<open>login\<close> for a new account (both
  buttons are on the login form), and the continuations resume in the order they were
  spawned.
\<close>

definition reg_login :: server where
  "reg_login = the (run_sched scenario_kdf (init_server scenario_db)
     [SConnect ''A'', SEvent ''A'' (Register ''carol'' ''pw3''), SEvent ''A'' (Login ''carol'' ''pw3''),
      SResume 0 ''s3'' [] 0, SResume 0 [] [] 0, SResume 0 [] [] 5])"


lemma drop_task_spawn [simp]: "drop_task (length (pending s)) (spawn t s) = s"
  by (simp add: drop_task_def spawn_def)

lemma resume_spawned:
  "sys_step H (spawn t s) (run_task H t salt rnd now s)"
  using sys_step.resume [of "length (pending s)" "spawn t s" H salt rnd now] by simp

lemma already_online_remove_conn:
  "already_online (remove_conn sid ou) u \<Longrightarrow> already_online ou u"
  using set_logged_in_names_delete [of sid ou] by (auto simp: already_online_iff remove_conn_def)

lemma on_disconnect_fields [simp]:
  "pending (on_disconnect sid s) = pending s" "users (on_disconnect sid s) = users s"
  "sockets (on_disconnect sid s) = filter (\<lambda>k. k \<noteq> sid) (sockets s)"
  "online (on_disconnect sid s) = remove_conn sid (online s)"
  by (simp_all add: on_disconnect_def broadcast_online_def)

lemma drop_task_disconnect_spawn [simp]:
  "drop_task (length (pending s)) (on_disconnect sid (spawn t s)) = on_disconnect sid s"
  by (simp add: drop_task_def on_disconnect_def broadcast_online_def spawn_def)

lemma outbox_broadcast_mono: "set (outbox s) \<subseteq> set (outbox (broadcast_online s))"
  by (auto simp: broadcast_online_def io_emit_def)

lemma login_tail_succeeds:
  assumes "registry_ok s" and "sid \<in> set (sockets s)" and "\<not> already_online (online s) u"
  shows "(sid, LoginSuccess (JStr u) (session_token rnd)) \<in> set (outbox (login_tail sid u rnd s))
         \<and> sessions (login_tail sid u rnd s) (session_token rnd) = Some u"
proof -
  have "sid \<in> set (obj_keys (online s))" using assms(1,2) by (simp add: registry_ok_def)
  then show ?thesis using assms(2,3) outbox_broadcast_mono
    by (auto simp: login_tail_bind emit_def broadcast_online_def io_emit_def)
qed

text \<open>
  C28. Login completes (liveness): in every reachable state, if a connected socket sends
  \<open>login\<close> with the password of a registered user who is not online, the event loop can
  run on to a state in which that socket has received \<open>login_success\<close> with a fresh
  token and that token is a live session of the user.
\<close>

theorem reach_login_completes:
  assumes "reach H db s" and "sid \<in> set (sockets s)" and "users s u = Some usr"
    and "bcrypt_compare H p (passwordHash usr)" and "\<not> already_online (online s) u"
  shows "\<exists>s'. (sys_step H)\<^sup>*\<^sup>* s s'
           \<and> (sid, LoginSuccess (JStr u) (session_token rnd)) \<in> set (outbox s')
           \<and> sessions s' (session_token rnd) = Some u"
proof -
  have ev: "sys_step H s (spawn (LoginFind sid u p) s)"
    using sys_step.event [OF assms(2), of H "Login u p"] by (simp add: on_login_def)
  have "login_found H sid u p s = spawn (LoginTail sid u) s"
    using assms(3,4) by (simp add: login_found_def find_user_def)
  then have found: "sys_step H (spawn (LoginFind sid u p) s) (spawn (LoginTail sid u) s)"
    using resume_spawned [of H "LoginFind sid u p" s "[]" "[]" 0] by simp
  have tail: "sys_step H (spawn (LoginTail sid u) s) (login_tail sid u rnd s)"
    using resume_spawned [of H "LoginTail sid u" s "[]" rnd 0] by simp
  have "registry_ok s" using assms(1) by (rule reach_registry_ok)
  with ev found tail login_tail_succeeds [OF _ assms(2,5)] show ?thesis
    by (meson rtranclp.rtrancl_into_rtrancl rtranclp.rtrancl_refl)
qed

theorem reach_login_completes_witness:
  "reach scenario_kdf scenario_db conn_A \<and> ''A'' \<in> set (sockets conn_A)
   \<and> users conn_A ''alice'' = Some \<lparr>passwordHash = Bcrypt 10 ''s1'' ''pw1'', createdAt = 0\<rparr>
   \<and> bcrypt_compare scenario_kdf ''pw1'' (passwordHash \<lparr>passwordHash = Bcrypt 10 ''s1'' ''pw1'', createdAt = 0\<rparr>)
   \<and> \<not> already_online (online conn_A) ''alice''
   \<and> (\<exists>s'. (sys_step scenario_kdf)\<^sup>*\<^sup>* conn_A s'
        \<and> (''A'', LoginSuccess (JStr ''alice'') (session_token [0xAB])) \<in> set (outbox s')
        \<and> sessions s' (session_token [0xAB]) = Some ''alice'')"
proof -
  have r: "reach scenario_kdf scenario_db conn_A"
    unfolding conn_A_def by (rule run_sched_Some_reach) code_simp
  have a: "''A'' \<in> set (sockets conn_A)" unfolding conn_A_def by code_simp
  have u: "users conn_A ''alice'' = Some \<lparr>passwordHash = Bcrypt 10 ''s1'' ''pw1'', createdAt = 0\<rparr>"
    unfolding conn_A_def by code_simp
  have c: "bcrypt_compare scenario_kdf ''pw1'' (passwordHash \<lparr>passwordHash = Bcrypt 10 ''s1'' ''pw1'', createdAt = 0\<rparr>)"
    by (simp add: scenario_kdf_def)
  have o: "\<not> already_online (online conn_A) ''alice''" unfolding conn_A_def by code_simp
  show ?thesis using reach_login_completes [OF r a u c o, of "[0xAB]"] r a u c o by blast
qed

text \<open>
  C14. A login whose socket disconnects while bcrypt runs restarts the server: the tail
  stores the new session, then \<open>onlineUsers[socket.id].username = ...\<close> throws on the
  deleted entry, and the rejection is unhandled. The run (login, lookup resumes,
  disconnect, tail resumes) ends in the restart of the state after the disconnect: every
  other connection is closed and every session is lost, whoever held it.
\<close>

theorem login_disconnect_crashes:
  assumes "sid \<in> set (sockets s)" and "users s u = Some usr"
    and "bcrypt_compare H p (passwordHash usr)" and "\<not> already_online (online s) u"
  shows "run_sched H s [SEvent sid (Login u p), SResume (length (pending s)) salt [] now,
            SDisconnect sid, SResume (length (pending s)) salt rnd now]
         = Some (restart (on_disconnect sid s))"
proof -
  have found: "login_found H sid u p s = spawn (LoginTail sid u) s"
    using assms(2,3) by (simp add: login_found_def find_user_def)
  have "\<not> already_online (online (on_disconnect sid s)) u"
    using assms(4) by (auto dest: already_online_remove_conn)
  then have "login_tail sid u rnd (on_disconnect sid s) = restart (on_disconnect sid s)"
    by (simp add: login_tail_absent restart_def)
  with assms(1) found show ?thesis by (simp add: on_login_def nth_append)
qed

theorem login_disconnect_crashes_witness:
  "''A'' \<in> set (sockets two_logged)
   \<and> users two_logged ''alice'' = Some \<lparr>passwordHash = Bcrypt 10 ''s1'' ''pw1'', createdAt = 0\<rparr>
   \<and> bcrypt_compare scenario_kdf ''pw1'' (passwordHash \<lparr>passwordHash = Bcrypt 10 ''s1'' ''pw1'', createdAt = 0\<rparr>)
   \<and> \<not> already_online (online two_logged) ''alice''
   \<and> ''bob'' \<in> ran (sessions two_logged) \<and> ''B'' \<in> set (sockets two_logged)
   \<and> run_sched scenario_kdf two_logged [SEvent ''A'' (Login ''alice'' ''pw1''), SResume 0 [] [] 0,
         SDisconnect ''A'', SResume 0 [] [0xAB] 0]
       = Some (restart (on_disconnect ''A'' two_logged))"
proof -
  have a: "''A'' \<in> set (sockets two_logged)" "''B'' \<in> set (sockets two_logged)"
    unfolding two_logged_def by code_simp+
  have p: "pending two_logged = []" unfolding two_logged_def by code_simp
  have u: "users two_logged ''alice'' = Some \<lparr>passwordHash = Bcrypt 10 ''s1'' ''pw1'', createdAt = 0\<rparr>"
    unfolding two_logged_def by code_simp
  have c: "bcrypt_compare scenario_kdf ''pw1'' (passwordHash \<lparr>passwordHash = Bcrypt 10 ''s1'' ''pw1'', createdAt = 0\<rparr>)"
    by (simp add: scenario_kdf_def)
  have o: "\<not> already_online (online two_logged) ''alice''" unfolding two_logged_def by code_simp
  have r: "sessions two_logged ''cd'' = Some ''bob''" unfolding two_logged_def by code_simp
  then have "''bob'' \<in> ran (sessions two_logged)" by (auto simp: ran_def)
  then show ?thesis
    using login_disconnect_crashes [OF a(1) u c o, where salt = "[]" and now = 0 and rnd = "[0xAB]"] a u c o p
    by simp
qed

text \<open>
  C32. A rejected database call logs every user out: when the awaited promise of any
  pending register or login continuation rejects (\<open>User.findOne\<close>, \<open>bcrypt\<close>,
  \<open>User.create\<close>), the unhandled rejection ends the process. After that step no socket
  is connected, nothing has been sent (the failed request got no reply), the store is
  unchanged, and no token issued before authenticates a client that reconnects and sends
  it in \<open>auto_login\<close>: the new connection stays unauthenticated.
\<close>

theorem task_failure_logs_out_everyone:
  assumes "sched_step H (SAbort i) s = Some s'"
  shows "sockets s' = [] \<and> outbox s' = outbox s \<and> users s' = users s
    \<and> (\<forall>rnd. obj_get (online (on_auto_login k (session_token rnd) (on_connection k s'))) k
               = Some \<lparr>socketId = k, username = JNull\<rparr>)"
proof -
  obtain s0 where s': "s' = restart s0" and "outbox s0 = outbox s" and "users s0 = users s"
    using assms by (auto split: if_splits)
  moreover have "obj_get (online (on_auto_login k (session_token rnd) (on_connection k (restart s0)))) k
               = Some \<lparr>socketId = k, username = JNull\<rparr>" for rnd
    using session_token_not_inherited [of rnd]
    by (simp add: on_auto_login_def on_connection_def register_conn_def session_lookup_def
        inherited_prop_def obj_get_def)
  ultimately show ?thesis by simp
qed

theorem task_failure_logs_out_everyone_witness:
  "sched_step scenario_kdf (SAbort 0) login_pending = Some (restart (drop_task 0 login_pending))
   \<and> sessions login_pending ''ab'' = Some ''alice'' \<and> ''A'' \<in> set (sockets login_pending)
   \<and> sockets (restart (drop_task 0 login_pending)) = []
   \<and> obj_get (online (on_auto_login ''A2'' (session_token [0xAB])
        (on_connection ''A2'' (restart (drop_task 0 login_pending))))) ''A2''
       = Some \<lparr>socketId = ''A2'', username = JNull\<rparr>"
proof -
  have p: "pending login_pending = [LoginFind ''C'' ''bob'' ''guess'']"
    unfolding login_pending_def scenario_sched_def by code_simp
  have a: "sessions login_pending ''ab'' = Some ''alice''"
    unfolding login_pending_def scenario_sched_def by code_simp
  have b: "''A'' \<in> set (sockets login_pending)"
    unfolding login_pending_def scenario_sched_def by code_simp
  have st: "sched_step scenario_kdf (SAbort 0) login_pending = Some (restart (drop_task 0 login_pending))"
    using p by simp
  show ?thesis using task_failure_logs_out_everyone [OF st, where k = "''A2''"] st a b by simp
qed

text \<open>
  C21. Events of one connection are not serialized (spec section 5 asks that they be
  processed in arrival order): when a connection registers a new account and then logs in
  with it, the login's \<open>User.findOne\<close> runs while the registration is still hashing,
  so the login is rejected with "Invalid username or password" before the registration
  succeeds. In the serialized order the same login succeeds (C29, C12).
\<close>

theorem register_login_reordered:
  "reach scenario_kdf scenario_db reg_login
   \<and> outbox reg_login = [(''A'', AuthError ''Invalid username or password''),
                           (''A'', RegisterSuccess ''Registration successful'')]
   \<and> pending reg_login = [] \<and> ''carol'' \<in> dom (users reg_login)
   \<and> obj_values (online reg_login) = [\<lparr>socketId = ''A'', username = JNull\<rparr>]"
proof -
  have r: "reach scenario_kdf scenario_db reg_login"
    unfolding reg_login_def by (rule run_sched_Some_reach) code_simp
  have o: "outbox reg_login = [(''A'', AuthError ''Invalid username or password''),
                           (''A'', RegisterSuccess ''Registration successful'')]"
    unfolding reg_login_def by code_simp
  have p: "pending reg_login = []" unfolding reg_login_def by code_simp
  have u: "users reg_login ''carol'' \<noteq> None" unfolding reg_login_def by code_simp
  have v: "obj_values (online reg_login) = [\<lparr>socketId = ''A'', username = JNull\<rparr>]"
    unfolding reg_login_def by code_simp
  from r o p u v show ?thesis by auto
qed

text \<open>
  C29. Registration completes (liveness): in every reachable state, if a connected socket
  sends \<open>register\<close> with a non-empty username that is not taken and a non-empty
  password, the event loop can run on to a state in which the socket has received
  \<open>register_success\<close> and the store holds the user with the bcrypt hash of the password.
\<close>

theorem reach_register_completes:
  assumes "reach H db s" and "sid \<in> set (sockets s)" and "u \<noteq> []" and "p \<noteq> []"
    and "u \<notin> dom (users s)"
  shows "\<exists>s'. (sys_step H)\<^sup>*\<^sup>* s s'
           \<and> (sid, RegisterSuccess ''Registration successful'') \<in> set (outbox s')
           \<and> users s' u = Some \<lparr>passwordHash = bcrypt_hash H salt p 10, createdAt = now\<rparr>"
proof -
  have ev: "sys_step H s (spawn (RegFind sid u p) s)"
    using sys_step.event [OF assms(2), of H "Register u p"] assms(3,4) by (simp add: on_register_def)
  have "register_found H sid u p salt s = spawn (RegCreate sid u (bcrypt_hash H salt p 10)) s"
    using assms(5) by (simp add: register_found_def find_user_def domIff)
  then have found: "sys_step H (spawn (RegFind sid u p) s) (spawn (RegCreate sid u (bcrypt_hash H salt p 10)) s)"
    using resume_spawned [of H "RegFind sid u p" s salt "[]" 0] by simp
  have create: "sys_step H (spawn (RegCreate sid u (bcrypt_hash H salt p 10)) s)
                  (register_create sid u (bcrypt_hash H salt p 10) now s)"
    using resume_spawned [of H "RegCreate sid u (bcrypt_hash H salt p 10)" s "[]" "[]" now] by simp
  have "(sid, RegisterSuccess ''Registration successful'') \<in> set (outbox (register_create sid u (bcrypt_hash H salt p 10) now s))
        \<and> users (register_create sid u (bcrypt_hash H salt p 10) now s) u
            = Some \<lparr>passwordHash = bcrypt_hash H salt p 10, createdAt = now\<rparr>"
    using assms(2,5) by (simp add: register_create_def create_user_def emit_def)
  with ev found create show ?thesis by (meson rtranclp.rtrancl_into_rtrancl rtranclp.rtrancl_refl)
qed

theorem reach_register_completes_witness:
  "reach scenario_kdf scenario_db conn_A \<and> ''A'' \<in> set (sockets conn_A) \<and> ''carol'' \<noteq> [] \<and> ''pw3'' \<noteq> []
   \<and> ''carol'' \<notin> dom (users conn_A)
   \<and> (\<exists>s'. (sys_step scenario_kdf)\<^sup>*\<^sup>* conn_A s'
        \<and> (''A'', RegisterSuccess ''Registration successful'') \<in> set (outbox s')
        \<and> users s' ''carol'' = Some \<lparr>passwordHash = bcrypt_hash scenario_kdf ''s3'' ''pw3'' 10, createdAt = 7\<rparr>)"
proof -
  have r: "reach scenario_kdf scenario_db conn_A"
    unfolding conn_A_def by (rule run_sched_Some_reach) code_simp
  have a: "''A'' \<in> set (sockets conn_A)" unfolding conn_A_def by code_simp
  have d: "''carol'' \<notin> dom (users conn_A)"
  proof -
    have "users conn_A ''carol'' = None" unfolding conn_A_def by code_simp
    then show ?thesis by (simp add: domIff)
  qed
  show ?thesis
    using reach_register_completes [OF r a _ _ d, of "''pw3''" "''s3''" 7] r a d by simp
qed

end
