(* ===== verification/Typing.thy ===== *)
theory Typing
  imports System
begin

text \<open>
  The values in the username slot. server.js never declares what \<open>username\<close> holds; the
  handlers store \<open>null\<close> (connection, logout), a string (login) or whatever
  \<open>sessions[token]\<close> reads (auto_login), and they send those values to the clients.
  \<open>slot_ok\<close> is the type those values have: \<open>null\<close>, a string, or a member inherited
  from \<open>Object.prototype\<close>, never \<open>undefined\<close>. \<open>msg_ok\<close> lifts it to the
  messages of the outbox and \<open>typed\<close> to a server state.
\<close>

fun slot_ok :: "jsval \<Rightarrow> bool" where
  "slot_ok JUndefined = False"
| "slot_ok JNull = True"
| "slot_ok (JStr _) = True"
| "slot_ok (JInherited k) = (k \<in> set object_prototype_props)"

fun msg_ok :: "server_msg \<Rightarrow> bool" where
  "msg_ok (LoginSuccess v _) = slot_ok v"
| "msg_ok (OnlineUsers es) = list_all (\<lambda>e. slot_ok (username e)) es"
| "msg_ok (PublicMessage v _) = slot_ok v"
| "msg_ok (PrivateMessage v _ _) = slot_ok v"
| "msg_ok _ = True"

definition typed :: "server \<Rightarrow> bool" where
  "typed s \<longleftrightarrow> list_all (\<lambda>e. slot_ok (username e)) (obj_values (online s))
     \<and> list_all (\<lambda>(r, m). msg_ok m) (outbox s)"

lemma list_all_obj_values_set:
  "list_all P (obj_values ob) \<Longrightarrow> P v \<Longrightarrow> list_all P (obj_values (obj_set k v ob))"
  by (induction ob) auto

lemma list_all_obj_values_modify:
  "list_all P (obj_values ob) \<Longrightarrow> (\<And>x. P (f x)) \<Longrightarrow> list_all P (obj_values (obj_modify k f ob))"
  by (induction ob) (auto simp: obj_modify_def)

lemma slot_ok_session_lookup: "truthy (session_lookup ss tok) \<Longrightarrow> slot_ok (session_lookup ss tok)"
  by (auto simp: session_lookup_def inherited_prop_def split: option.splits if_splits)

lemma typed_set_username:
  "typed s \<Longrightarrow> slot_ok v \<Longrightarrow> set_username sid v (online s) = Some ou \<Longrightarrow> typed (s\<lparr>online := ou\<rparr>)"
  by (auto simp: typed_def set_username_def intro: list_all_obj_values_modify split: if_splits)

lemma typed_emit: "typed s \<Longrightarrow> msg_ok m \<Longrightarrow> typed (emit sid m s)"
  by (simp add: typed_def emit_def)

lemma typed_io_emit: "typed s \<Longrightarrow> msg_ok m \<Longrightarrow> typed (io_emit m s)"
  by (auto simp: typed_def io_emit_def list_all_iff)

lemma typed_io_to: "typed s \<Longrightarrow> msg_ok m \<Longrightarrow> typed (io_to r m s)"
  by (auto simp: typed_def io_to_def list_all_iff)

lemma typed_spawn [simp]: "typed (spawn t s) = typed s"
  by (simp add: typed_def spawn_def)

lemma typed_broadcast: "typed s \<Longrightarrow> typed (broadcast_online s)"
  by (auto simp: broadcast_online_def io_emit_def typed_def list_all_iff)

lemma typed_store_updates [simp]:
  "typed (s\<lparr>users := db\<rparr>) = typed s" "typed (s\<lparr>sessions := ss\<rparr>) = typed s"
  by (simp_all add: typed_def)

lemma typed_restart: "typed s \<Longrightarrow> typed (restart s)"
  by (simp add: typed_def restart_def init_server_def)

lemma typed_entry:
  assumes "typed s" and "obj_get (online s) sid = Some e" shows "slot_ok (username e)"
proof -
  have "e \<in> set (obj_values (online s))" using assms(2) by (rule obj_get_in_values)
  moreover have "list_all (\<lambda>e. slot_ok (username e)) (obj_values (online s))"
    using assms(1) by (simp add: typed_def)
  ultimately show ?thesis by (auto simp: list_all_iff)
qed

text \<open>Binding a typed value to a connection and announcing it keeps the state typed.\<close>

lemma typed_bind_announce:
  assumes "typed s" and "slot_ok v" and "msg_ok m"
  shows "typed (case set_username sid v (online s) of None \<Rightarrow> s
                | Some ou \<Rightarrow> broadcast_online (emit sid m (s\<lparr>online := ou\<rparr>)))"
  using assms by (auto split: option.split intro: typed_broadcast typed_emit typed_set_username)

lemma handle_event_typed: "typed s \<Longrightarrow> typed (handle_event sid ev s)"
proof (cases ev)
  case (AutoLogin tok)
  assume t: "typed s"
  show ?thesis
  proof (cases "truthy (session_lookup (sessions s) tok)")
    case True
    with typed_bind_announce [OF t slot_ok_session_lookup [OF True],
        of "LoginSuccess (session_lookup (sessions s) tok) tok" sid]
    show ?thesis using AutoLogin True slot_ok_session_lookup [OF True]
      by (simp add: on_auto_login_def Let_def)
  qed (simp add: AutoLogin on_auto_login_def t)
next
  case (Logout tok)
  assume "typed s"
  then have t: "typed (s\<lparr>sessions := destroy_session (sessions s) tok\<rparr>)" by (simp add: typed_def)
  have "typed (case set_username sid JNull (online s) of None \<Rightarrow> s\<lparr>sessions := destroy_session (sessions s) tok\<rparr>
                | Some ou \<Rightarrow> s\<lparr>sessions := destroy_session (sessions s) tok, online := ou\<rparr>)"
    using typed_set_username [OF t, of JNull sid] t by (auto split: option.split)
  then show ?thesis using Logout
    by (simp add: on_logout_def Let_def typed_broadcast typed_emit)
next
  case (PublicMsg msg)
  assume "typed s"
  then show ?thesis using PublicMsg
    by (auto simp: on_public_message_def intro!: typed_io_emit split: option.split dest: typed_entry)
next
  case (PrivateMsg to msg)
  assume "typed s"
  then show ?thesis using PrivateMsg
    by (auto simp: on_private_message_def intro!: typed_io_to split: option.split dest: typed_entry)
qed (auto simp: on_register_def on_login_def intro: typed_emit)

lemma run_task_typed: "typed s \<Longrightarrow> typed (run_task H t salt rnd now s)"
proof (cases t)
  case (LoginTail sid u)
  assume t: "typed s"
  then have t1: "typed (s\<lparr>sessions := create_session (sessions s) (session_token rnd) u\<rparr>)"
    by (simp add: typed_def)
  show ?thesis
  proof (cases "set_username sid (JStr u) (online s)")
    case None
    show ?thesis using t t1 by (simp add: LoginTail None login_tail_def Let_def typed_emit typed_restart)
  next
    case (Some ou)
    with typed_bind_announce [OF t1, of "JStr u" "LoginSuccess (JStr u) (session_token rnd)" sid] LoginTail t
    show ?thesis by (simp add: login_tail_def Let_def typed_emit)
  qed
qed (auto simp: register_found_def register_create_def login_found_def
       split: option.split sum.split db_error.split intro: typed_emit typed_restart)

lemma sys_step_typed: "sys_step H s s' \<Longrightarrow> typed s \<Longrightarrow> typed s'"
proof (induction rule: sys_step.induct)
  case (connect sid s)
  then show ?case
    by (simp add: typed_def on_connection_def register_conn_def list_all_obj_values_set)
next
  case (event sid s ev)
  from event.prems show ?case by (rule handle_event_typed)
next
  case (resume i s salt rnd now)
  then have "typed (drop_task i s)" by (simp add: typed_def)
  then show ?case by (rule run_task_typed)
next
  case (abort i s)
  then have "typed (drop_task i s)" by (simp add: typed_def)
  then show ?case by (simp add: typed_restart)
next
  case (disconnect sid s)
  then have "typed (s\<lparr>sockets := filter (\<lambda>k. k \<noteq> sid) (sockets s), online := remove_conn sid (online s)\<rparr>)"
    by (auto simp: typed_def remove_conn_def obj_delete_def list_all_iff)
  then show ?case by (simp add: on_disconnect_def typed_broadcast)
qed

text \<open>
  C30. The username slot is typed: in every reachable state every entry of
  \<open>onlineUsers\<close> holds \<open>null\<close>, a string or an \<open>Object.prototype\<close> member as its
  username, never \<open>undefined\<close>, and so does every username the server has sent in
  \<open>login_success\<close>, \<open>online_users\<close>, \<open>public_message\<close> and \<open>private_message\<close>.
\<close>

theorem reach_typed:
  assumes "reach H db s"
  shows "list_all (\<lambda>e. slot_ok (username e)) (obj_values (online s))
         \<and> list_all (\<lambda>(r, m). msg_ok m) (outbox s)"
proof -
  from assms have "typed s"
    by (induction rule: reach.induct) (simp add: typed_def init_server_def, blast intro: sys_step_typed)
  then show ?thesis by (simp add: typed_def)
qed

theorem reach_typed_witness:
  "reach scenario_kdf scenario_db dup_state
   \<and> list_all (\<lambda>e. slot_ok (username e)) (obj_values (online dup_state))
   \<and> list_all (\<lambda>(r, m). msg_ok m) (outbox dup_state)"
  using reach_typed [OF dup_reach] dup_reach by simp

end
