(* ===== verification/Client.thy ===== *)
theory Client
  imports Server
begin

text \<open>
  The browser client, src/client/script.js. Its state (lines 25-29) is a record together
  with what the DOM shows of it: the messages pane (\<open>messages.innerHTML\<close>, as the list
  of (sender, text) lines it renders), the user list and the private-chat list (their
  \<open>li\<close> items with the socket id each one opens), the chat title, the name in the
  header (\<open>myIdSpan.innerText\<close>, \<open>myId\<close>, which \<open>logout_success\<close> leaves as it
  was), which of the two
  boxes is shown, the stored token (\<open>localStorage\<close>), the events sent to the server and
  the alerts raised. One definition per listener (\<open>socket.on\<close>) and per UI function
  (\<open>window.register\<close>, \<open>window.login\<close>, \<open>window.logout\<close>,
  \<open>window.sendMessage\<close>, \<open>openPrivateChat\<close>, \<open>updatePrivateList\<close>);
  \<open>client_step\<close> dispatches one input.
  Values arrive from the server as JSON: a string stays a string, \<open>null\<close> stays
  \<open>null\<close>, a function (an inherited prototype member the server stored as a
  username) is dropped, so the field reads \<open>undefined\<close>, and \<open>Object.prototype\<close>
  itself (what \<open>sessions["__proto__"]\<close> reads) arrives as a fresh empty object
  \<open>{}\<close>, kept as \<open>JInherited ''__proto__''\<close> (\<open>json_wire\<close>). Two objects
  received in different messages are never \<open>===\<close> (\<open>js_same\<close>).
  The listener of \<open>private_message\<close> (lines 121-145) is modelled as intended: as written,
  line 145 closes it with \<open>};\<close> instead of \<open>});\<close>, so the file does not parse.
\<close>

datatype chat_view = PublicView | PrivateView

record pchat =
  pc_username :: jsval
  pc_messages :: "(jsval \<times> string) list"
  pc_unread :: nat
  pc_socketId :: sid

record client =
  myUsername :: jsval
  myId :: string
  sessionToken :: "token option"
  currentChat :: chat_view
  activePrivateSocketId :: "sid option"
  privateChats :: "pchat jsobj"
  messages :: "(jsval \<times> string) list"
  usersList :: "(jsval \<times> sid) list"
  privateList :: "(string \<times> sid) list"
  chatTitle :: string
  chatVisible :: bool
  storedToken :: "token option"
  emitted :: "client_event list"
  alerts :: "string list"

datatype client_input =
    Connect
  | ClickRegister string string
  | ClickLogin string string
  | ClickLogout
  | Receive server_msg
  | Send string
  | OpenPrivate sid jsval

definition init_client :: "token option \<Rightarrow> client" where
  "init_client stored = \<lparr>myUsername = JStr [], myId = [], sessionToken = stored, currentChat = PublicView,
     activePrivateSocketId = None, privateChats = [], messages = [], usersList = [],
     privateList = [], chatTitle = ''Public Chat'', chatVisible = False, storedToken = stored,
     emitted = [], alerts = []\<rparr>"

subsection \<open>Helpers\<close>

definition json_wire :: "jsval \<Rightarrow> jsval" where
  "json_wire v = (case v of JInherited k \<Rightarrow> if k = ''__proto__'' then v else JUndefined | _ \<Rightarrow> v)"

text \<open>\<open>===\<close> on received values: strings, \<open>null\<close> and \<open>undefined\<close> by value, objects by identity.\<close>

definition js_same :: "jsval \<Rightarrow> jsval \<Rightarrow> bool" where
  "js_same a b = (case a of JInherited _ \<Rightarrow> False | _ \<Rightarrow> a = b)"

text \<open>\<open>String.prototype.trim\<close> on the ASCII whitespace characters.\<close>

definition js_space :: "char \<Rightarrow> bool" where
  "js_space c = (c = CHR '' '' \<or> ((9::nat) \<le> of_char c \<and> of_char c \<le> (13::nat)))"

definition js_trim :: "string \<Rightarrow> string" where
  "js_trim s = rev (dropWhile js_space (rev (dropWhile js_space s)))"

fun decimal :: "nat \<Rightarrow> string" where
  "decimal n = (if n < 10 then [char_of (48 + n)] else decimal (n div 10) @ [char_of (48 + n mod 10)])"

declare decimal.simps [simp del]

fun js_string :: "jsval \<Rightarrow> string" where
  "js_string JUndefined = ''undefined''"
| "js_string JNull = ''null''"
| "js_string (JStr s) = s"
| "js_string (JInherited k) = ''[object Object]''"

text \<open>Assigning to \<open>innerText\<close>: \<open>null\<close> clears the element, any other value is converted to a string.\<close>

definition inner_text :: "jsval \<Rightarrow> string" where
  "inner_text v = (case v of JNull \<Rightarrow> [] | _ \<Rightarrow> js_string v)"

definition chat_label :: "pchat \<Rightarrow> string" where
  "chat_label c = js_string (pc_username c) @
     (if 0 < pc_unread c then '' ('' @ decimal (pc_unread c) @ '')'' else [])"

definition emit_event :: "client_event \<Rightarrow> client \<Rightarrow> client" where
  "emit_event e c = c\<lparr>emitted := emitted c @ [e]\<rparr>"

subsection \<open>Listeners and UI functions\<close>

definition on_connect :: "client \<Rightarrow> client" where
  "on_connect c =
     (case sessionToken c of Some tok \<Rightarrow> if tok \<noteq> [] then emit_event (AutoLogin tok) c else c
      | None \<Rightarrow> c)"

definition click_register :: "string \<Rightarrow> string \<Rightarrow> client \<Rightarrow> client" where
  "click_register u p c =
     (let u' = js_trim u; p' = js_trim p in
      if u' = [] \<or> p' = [] then c\<lparr>alerts := alerts c @ [''Enter username & password'']\<rparr>
      else emit_event (Register u' p') c)"

definition click_login :: "string \<Rightarrow> string \<Rightarrow> client \<Rightarrow> client" where
  "click_login u p c =
     (let u' = js_trim u; p' = js_trim p in
      if u' = [] \<or> p' = [] then c\<lparr>alerts := alerts c @ [''Enter username & password'']\<rparr>
      else emit_event (Login u' p') c)"

text \<open>\<open>socket.emit("logout", sessionToken)\<close>: a \<open>null\<close> token reaches the server as a key \<open>"null"\<close>.\<close>

definition click_logout :: "client \<Rightarrow> client" where
  "click_logout c =
     (emit_event (Logout (case sessionToken c of Some t \<Rightarrow> t | None \<Rightarrow> ''null'')) c)\<lparr>storedToken := None\<rparr>"

definition on_login_success :: "jsval \<Rightarrow> token \<Rightarrow> client \<Rightarrow> client" where
  "on_login_success u tok c =
     c\<lparr>myUsername := json_wire u, myId := inner_text (json_wire u), sessionToken := Some tok, storedToken := Some tok,
       chatVisible := True\<rparr>"

definition on_logout_success :: "client \<Rightarrow> client" where
  "on_logout_success c =
     c\<lparr>myUsername := JStr [], sessionToken := None, currentChat := PublicView,
       activePrivateSocketId := None, privateChats := [], messages := [], usersList := [],
       privateList := [], chatTitle := ''Public Chat'', chatVisible := False\<rparr>"

definition on_online_users :: "entry list \<Rightarrow> client \<Rightarrow> client" where
  "on_online_users us c =
     c\<lparr>usersList := map (\<lambda>e. (json_wire (username e), socketId e))
        (filter (\<lambda>e. truthy (json_wire (username e)) \<and> \<not> js_same (json_wire (username e)) (myUsername c)) us)\<rparr>"

definition on_public_message_client :: "jsval \<Rightarrow> string \<Rightarrow> client \<Rightarrow> client" where
  "on_public_message_client from msg c =
     (if currentChat c = PublicView \<and> \<not> js_same (json_wire from) (myUsername c)
      then c\<lparr>messages := messages c @ [(json_wire from, msg)]\<rparr> else c)"

definition update_private_list :: "client \<Rightarrow> client" where
  "update_private_list c =
     c\<lparr>privateList := map (\<lambda>ch. (chat_label ch, pc_socketId ch)) (obj_values (privateChats c))\<rparr>"

definition on_private_message_client :: "jsval \<Rightarrow> string \<Rightarrow> sid \<Rightarrow> client \<Rightarrow> client" where
  "on_private_message_client from msg k c =
     (let f = json_wire from;
          pcs0 = (case obj_get (privateChats c) k of
                    None \<Rightarrow> obj_set k \<lparr>pc_username = f, pc_messages = [], pc_unread = 0, pc_socketId = k\<rparr>
                             (privateChats c)
                  | Some _ \<Rightarrow> privateChats c);
          pcs1 = obj_modify k (\<lambda>ch. ch\<lparr>pc_messages := pc_messages ch @ [(f, msg)]\<rparr>) pcs0
      in if currentChat c \<noteq> PrivateView \<or> activePrivateSocketId c \<noteq> Some k
         then update_private_list
                (c\<lparr>privateChats := obj_modify k (\<lambda>ch. ch\<lparr>pc_unread := Suc (pc_unread ch)\<rparr>) pcs1\<rparr>)
         else c\<lparr>privateChats := pcs1, messages := messages c @ [(f, msg)]\<rparr>)"

text \<open>
  \<open>window.sendMessage\<close>: in a private view the message is also pushed to the active
  chat; if there is no such chat the push throws a TypeError after the emit, and the state
  is the one at the throw. A \<open>null\<close> target reaches the server as the key \<open>"null"\<close>.
\<close>

definition send_message :: "string \<Rightarrow> client \<Rightarrow> client" where
  "send_message txt c =
     (if txt = [] then c
      else if currentChat c = PublicView
      then (emit_event (PublicMsg txt) c)\<lparr>messages := messages c @ [(JStr ''You'', txt)]\<rparr>
      else
        let k = (case activePrivateSocketId c of Some k \<Rightarrow> k | None \<Rightarrow> ''null'');
            c1 = emit_event (PrivateMsg k txt) c
        in if k \<notin> set (obj_keys (privateChats c)) then c1
           else c1\<lparr>privateChats := obj_modify k (\<lambda>ch. ch\<lparr>pc_messages := pc_messages ch @ [(JStr ''You'', txt)]\<rparr>)
                                      (privateChats c),
                   messages := messages c @ [(JStr ''You'', txt)]\<rparr>)"

definition open_private_chat :: "sid \<Rightarrow> jsval \<Rightarrow> client \<Rightarrow> client" where
  "open_private_chat k u c =
     (let pcs0 = (case obj_get (privateChats c) k of
                    None \<Rightarrow> obj_set k \<lparr>pc_username = u, pc_messages = [], pc_unread = 0, pc_socketId = k\<rparr>
                             (privateChats c)
                  | Some _ \<Rightarrow> privateChats c);
          pcs1 = obj_modify k (\<lambda>ch. ch\<lparr>pc_unread := 0\<rparr>) pcs0
      in update_private_list
           (c\<lparr>currentChat := PrivateView, activePrivateSocketId := Some k, privateChats := pcs1,
              chatTitle := ''Private Chat with '' @ js_string u,
              messages := (case obj_get pcs1 k of Some ch \<Rightarrow> pc_messages ch | None \<Rightarrow> [])\<rparr>))"

fun on_server_msg :: "server_msg \<Rightarrow> client \<Rightarrow> client" where
  "on_server_msg (RegisterSuccess m) c = c\<lparr>alerts := alerts c @ [m]\<rparr>"
| "on_server_msg (AuthError m) c = c\<lparr>alerts := alerts c @ [m]\<rparr>"
| "on_server_msg (LoginSuccess u tok) c = on_login_success u tok c"
| "on_server_msg LogoutSuccess c = on_logout_success c"
| "on_server_msg (OnlineUsers us) c = on_online_users us c"
| "on_server_msg (PublicMessage f m) c = on_public_message_client f m c"
| "on_server_msg (PrivateMessage f m k) c = on_private_message_client f m k c"

text \<open>One input to the client.\<close>

fun client_step :: "client \<Rightarrow> client_input \<Rightarrow> client" where
  "client_step c Connect = on_connect c"
| "client_step c (ClickRegister u p) = click_register u p c"
| "client_step c (ClickLogin u p) = click_login u p c"
| "client_step c ClickLogout = click_logout c"
| "client_step c (Receive m) = on_server_msg m c"
| "client_step c (Send txt) = send_message txt c"
| "client_step c (OpenPrivate k u) = open_private_chat k u c"


subsection \<open>What the client promises\<close>

text \<open>
  The chat pane in a private view shows the active chat's thread, and that thread has no
  unread messages (\<open>view_ok\<close>). \<open>thread c k\<close> is the message list and unread count
  the client keeps for socket \<open>k\<close>; \<open>viewing c k\<close> holds when that chat is open.
  \<open>decimal_value\<close> reads a string of decimal digits back as a number.
\<close>

definition active_chat :: "client \<Rightarrow> pchat option" where
  "active_chat c = Option.bind (activePrivateSocketId c) (obj_get (privateChats c))"

definition view_ok :: "client \<Rightarrow> bool" where
  "view_ok c \<longleftrightarrow> (currentChat c = PrivateView \<longrightarrow>
     active_chat c \<noteq> None \<and> messages c = pc_messages (the (active_chat c))
     \<and> pc_unread (the (active_chat c)) = 0)"

definition viewing :: "client \<Rightarrow> sid \<Rightarrow> bool" where
  "viewing c k \<longleftrightarrow> currentChat c = PrivateView \<and> activePrivateSocketId c = Some k"

definition thread :: "client \<Rightarrow> sid \<Rightarrow> (jsval \<times> string) list \<times> nat" where
  "thread c k = (case obj_get (privateChats c) k of None \<Rightarrow> ([], 0)
                 | Some ch \<Rightarrow> (pc_messages ch, pc_unread ch))"

definition decimal_value :: "string \<Rightarrow> nat" where
  "decimal_value s = foldl (\<lambda>n d. 10 * n + (of_char d - 48)) 0 s"

subsection \<open>The pane invariant\<close>

lemma view_ok_private:
  "view_ok c \<Longrightarrow> currentChat c = PrivateView \<Longrightarrow>
   \<exists>k ch. activePrivateSocketId c = Some k \<and> obj_get (privateChats c) k = Some ch
     \<and> messages c = pc_messages ch \<and> pc_unread ch = 0"
  by (cases "activePrivateSocketId c") (auto simp: view_ok_def active_chat_def)

lemma view_ok_frame:
  "currentChat c' = currentChat c \<Longrightarrow> activePrivateSocketId c' = activePrivateSocketId c \<Longrightarrow>
   privateChats c' = privateChats c \<Longrightarrow> messages c' = messages c \<Longrightarrow> view_ok c \<Longrightarrow> view_ok c'"
  by (simp add: view_ok_def active_chat_def)

lemma private_message_client_view_ok:
  assumes "view_ok c" shows "view_ok (on_private_message_client f m k c)"
proof (cases "currentChat c = PrivateView")
  case False
  then show ?thesis
    unfolding on_private_message_client_def Let_def
    by (simp add: update_private_list_def view_ok_def)
next
  case True
  with assms obtain a ch where a: "activePrivateSocketId c = Some a"
    and ch: "obj_get (privateChats c) a = Some ch" and m: "messages c = pc_messages ch"
    and u: "pc_unread ch = 0"
    by (blast dest: view_ok_private)
  show ?thesis
  proof (cases "a = k")
    case True
    with a ch m u \<open>currentChat c = PrivateView\<close> show ?thesis
      unfolding on_private_message_client_def Let_def
      by (simp add: view_ok_def active_chat_def obj_get_modify)
  next
    case False
    have "active_chat (on_private_message_client f m k c) = Some ch"
      using False a ch unfolding on_private_message_client_def Let_def
      by (simp add: update_private_list_def active_chat_def obj_get_modify obj_get_set
          split: option.split)
    moreover have "messages (on_private_message_client f m k c) = messages c"
      using False a unfolding on_private_message_client_def Let_def
      by (simp add: update_private_list_def)
    ultimately show ?thesis using m u by (simp add: view_ok_def)
  qed
qed

lemma send_message_view_ok:
  assumes "view_ok c" shows "view_ok (send_message txt c)"
proof (cases "txt = [] \<or> currentChat c = PublicView")
  case True
  with assms show ?thesis
    unfolding send_message_def by (auto simp: emit_event_def view_ok_def)
next
  case False
  then have t: "txt \<noteq> []" and p: "currentChat c = PrivateView" by (cases "currentChat c"; simp)+
  with assms obtain a ch where a: "activePrivateSocketId c = Some a"
    and ch: "obj_get (privateChats c) a = Some ch" and m: "messages c = pc_messages ch"
    and u: "pc_unread ch = 0"
    by (blast dest: view_ok_private)
  have "a \<in> set (obj_keys (privateChats c))" using ch obj_get_None_iff [of "privateChats c" a] by auto
  with t p a ch m u show ?thesis
    unfolding send_message_def Let_def
    by (simp add: emit_event_def view_ok_def active_chat_def obj_get_modify)
qed

lemma open_private_chat_view_ok: "view_ok (open_private_chat k u c)"
  by (simp add: open_private_chat_def update_private_list_def view_ok_def active_chat_def obj_get_modify
      obj_get_set Let_def split: option.split)

lemma on_server_msg_view_ok: "view_ok c \<Longrightarrow> view_ok (on_server_msg msg c)"
proof (cases msg)
  case (PublicMessage f m)
  then show "view_ok c \<Longrightarrow> ?thesis"
    by (simp add: on_public_message_client_def view_ok_def)
next
  case (PrivateMessage f m k)
  then show "view_ok c \<Longrightarrow> ?thesis" by (simp add: private_message_client_view_ok)
next
  case LogoutSuccess
  then show ?thesis by (simp add: on_logout_success_def view_ok_def)
qed (auto simp: on_login_success_def on_online_users_def intro: view_ok_frame)

text \<open>
  C22. Every input the client handles keeps the pane invariant: whenever a private chat is
  shown, the pane holds exactly that chat's messages and the chat has no unread count.
\<close>

lemma client_step_view_ok: "view_ok c \<Longrightarrow> view_ok (client_step c i)"
proof (cases i)
  case Connect
  then show "view_ok c \<Longrightarrow> ?thesis"
    by (auto simp: on_connect_def emit_event_def split: option.split intro: view_ok_frame)
qed (auto simp: click_register_def click_login_def click_logout_def emit_event_def Let_def
      send_message_view_ok open_private_chat_view_ok on_server_msg_view_ok intro: view_ok_frame)

lemma client_step_view_ok_witness:
  "view_ok (open_private_chat ''B'' (JStr ''bob'') (init_client None))
   \<and> view_ok (client_step (open_private_chat ''B'' (JStr ''bob'') (init_client None))
                (Receive (PrivateMessage (JStr ''bob'') ''hi'' ''B'')))"
  using client_step_view_ok [of "open_private_chat ''B'' (JStr ''bob'') (init_client None)"
      "Receive (PrivateMessage (JStr ''bob'') ''hi'' ''B'')"]
  by (simp add: open_private_chat_view_ok)

subsection \<open>Threads of private messages\<close>

lemma viewing_private_message_client [simp]:
  "viewing (on_private_message_client f m k' c) k = viewing c k"
  unfolding on_private_message_client_def Let_def
  by (simp add: viewing_def update_private_list_def)

lemma thread_private_message_client:
  "thread (on_private_message_client f m k' c) k =
     (if k' = k then (fst (thread c k) @ [(json_wire f, m)],
                      if viewing c k then snd (thread c k) else Suc (snd (thread c k)))
      else thread c k)"
  unfolding on_private_message_client_def Let_def
  by (auto simp: thread_def viewing_def update_private_list_def obj_get_modify obj_get_set
      split: option.split)

text \<open>
  C23. Private messages are grouped by the sending socket: after any sequence of private
  messages, the thread of socket k, if it is not the open chat, holds its earlier messages
  followed by exactly the messages sent from k, in arrival order, and its unread count has
  grown by their number.
\<close>

lemma private_threads_group_by_sender:
  "\<not> viewing c k \<Longrightarrow>
   thread (fold (\<lambda>(f, m, k'). on_private_message_client f m k') ms c) k =
     (fst (thread c k) @ map (\<lambda>(f, m, k'). (json_wire f, m)) (filter (\<lambda>(f, m, k'). k' = k) ms),
      snd (thread c k) + length (filter (\<lambda>(f, m, k'). k' = k) ms))"
proof (induction ms arbitrary: c)
  case (Cons x ms)
  obtain f m k' where x: "x = (f, m, k')" by (cases x)
  from Cons.prems have "\<not> viewing (on_private_message_client f m k' c) k" by simp
  from Cons.IH [OF this] Cons.prems show ?case
    by (simp add: x thread_private_message_client)
qed simp

lemma private_threads_group_by_sender_witness:
  "\<not> viewing (init_client None) ''B''
   \<and> thread (fold (\<lambda>(f, m, k'). on_private_message_client f m k')
       [(JStr ''bob'', ''hi'', ''B''), (JStr ''carol'', ''x'', ''C''), (JStr ''bob'', ''yo'', ''B'')]
       (init_client None)) ''B''
     = ([(JStr ''bob'', ''hi''), (JStr ''bob'', ''yo'')], 2)"
  using private_threads_group_by_sender [of "init_client None" "''B''"
      "[(JStr ''bob'', ''hi'', ''B''), (JStr ''carol'', ''x'', ''C''), (JStr ''bob'', ''yo'', ''B'')]"]
  by (simp add: viewing_def init_client_def thread_def json_wire_def obj_get_def)

subsection \<open>Presence list and public messages\<close>

text \<open>The user list is computed from the bound entries of a presence payload only.\<close>

lemma usersList_bound_view:
  "usersList (on_online_users (bound_view es) c) = usersList (on_online_users es c)"
  by (induction es) (auto simp: on_online_users_def bound_view_def json_wire_def split: jsval.split)

text \<open>
  C24. A public message whose sender name equals the client's own name is never shown:
  the client treats it as its own echo, whichever connection sent it.
\<close>

lemma public_echo_suppressed:
  "myUsername c = JStr u \<Longrightarrow> on_public_message_client (JStr u) m c = c"
  by (simp add: on_public_message_client_def json_wire_def js_same_def)

lemma public_echo_suppressed_witness:
  "myUsername (on_login_success (JStr ''alice'') ''ab'' (init_client None)) = JStr ''alice''
   \<and> on_public_message_client (JStr ''alice'') ''yo'' (on_login_success (JStr ''alice'') ''ab'' (init_client None))
     = on_login_success (JStr ''alice'') ''ab'' (init_client None)"
  using public_echo_suppressed [of "on_login_success (JStr ''alice'') ''ab'' (init_client None)" "''alice''" "''yo''"]
  by (simp add: on_login_success_def json_wire_def)

subsection \<open>Stored token, credentials, counters\<close>

text \<open>
  C25. The token survives a reload: after a login success with a non-empty token, a fresh
  page (its state rebuilt from storage) sends exactly one auto_login with that token when it
  connects; after a logout click it sends nothing.
\<close>

lemma stored_token_autologin:
  "tok \<noteq> [] \<Longrightarrow>
   emitted (on_connect (init_client (storedToken (on_login_success u tok c)))) = [AutoLogin tok]
   \<and> emitted (on_connect (init_client (storedToken (click_logout (on_login_success u tok c))))) = []"
  by (simp add: on_connect_def init_client_def on_login_success_def click_logout_def emit_event_def)

lemma stored_token_autologin_witness:
  "''ab'' \<noteq> []
   \<and> emitted (on_connect (init_client (storedToken (on_login_success (JStr ''alice'') ''ab'' (init_client None)))))
     = [AutoLogin ''ab'']
   \<and> emitted (on_connect (init_client (storedToken (click_logout
       (on_login_success (JStr ''alice'') ''ab'' (init_client None)))))) = []"
  using stored_token_autologin [of "''ab''" "JStr ''alice''" "init_client None"] by simp

lemma js_trim_idem: "js_trim (js_trim s) = js_trim s"
  using dropWhile_rev_prefix [OF dropWhile_twice [of js_space s]] by (simp add: js_trim_def)

text \<open>
  The credentials the login button sends are non-empty and already trimmed: when the click
  emits a login event, both fields are unchanged by trimming and neither is empty.
\<close>

lemma click_login_sends_trimmed:
  "emitted (click_login u p c) = emitted c @ [Login u' p'] \<Longrightarrow>
   u' \<noteq> [] \<and> p' \<noteq> [] \<and> js_trim u' = u' \<and> js_trim p' = p'"
  by (auto simp: click_login_def emit_event_def js_trim_idem Let_def split: if_splits)

lemma decimal_value_snoc: "decimal_value (s @ [d]) = 10 * decimal_value s + (of_char d - 48)"
  by (simp add: decimal_value_def)

lemma of_char_digit: "d < 10 \<Longrightarrow> of_char (char_of (48 + d) :: char) = (48 + d :: nat)"
  by (simp add: of_char_of)

text \<open>
  The unread count in a chat label reads back as the count: the decimal rendering of a
  number parses to that number.
\<close>

lemma decimal_roundtrip: "decimal_value (decimal n) = n"
proof (induction n rule: decimal.induct)
  case (1 n)
  show ?case
  proof (cases "n < 10")
    case True
    then show ?thesis by (simp add: decimal.simps decimal_value_def of_char_digit)
  next
    case False
    then have "decimal n = decimal (n div 10) @ [char_of (48 + n mod 10)]" by (simp add: decimal.simps)
    with 1 False show ?thesis by (simp add: decimal_value_snoc of_char_digit)
  qed
qed

end
