(* ===== verification/Browser.thy ===== *)
theory Browser
  imports System Client
begin

text \<open>
  A browser connected to the server. \<open>msgs_to k out\<close> is what socket \<open>k\<close> receives from
  the outbox, in order; \<open>received ins\<close> is what a browser has handled out of its inputs
  \<open>ins\<close>, which interleave the messages it receives with the user's clicks and typing.
  \<open>last_presence\<close> is the payload of the last \<open>online_users\<close> in a message
  sequence; \<open>settled\<close> says that no \<open>login_success\<close> or \<open>logout_success\<close>
  (the messages that change \<open>myUsername\<close> and clear the user list) came after it.
\<close>

definition msgs_to :: "sid \<Rightarrow> (sid \<times> server_msg) list \<Rightarrow> server_msg list" where
  "msgs_to k out = map snd (filter (\<lambda>(r, m). r = k) out)"

fun received :: "client_input list \<Rightarrow> server_msg list" where
  "received [] = []"
| "received (Receive m # ins) = m # received ins"
| "received (_ # ins) = received ins"

fun last_presence :: "server_msg list \<Rightarrow> entry list option" where
  "last_presence [] = None"
| "last_presence (m # ms) =
     (case last_presence ms of Some es \<Rightarrow> Some es | None \<Rightarrow> presence_payload m)"

fun settled_rev :: "server_msg list \<Rightarrow> bool" where
  "settled_rev [] = True"
| "settled_rev (OnlineUsers _ # ms) = True"
| "settled_rev (LoginSuccess _ _ # ms) = False"
| "settled_rev (LogoutSuccess # ms) = False"
| "settled_rev (_ # ms) = settled_rev ms"

definition settled :: "server_msg list \<Rightarrow> bool" where
  "settled ms = settled_rev (rev ms)"

definition run_browser :: "client_input list \<Rightarrow> client \<Rightarrow> client" where
  "run_browser ins c = fold (\<lambda>i c. client_step c i) ins c"

definition presence_settled :: "server \<Rightarrow> bool" where
  "presence_settled s \<longleftrightarrow> (\<forall>k \<in> set (sockets s). settled (msgs_to k (outbox s)))"

subsection \<open>Message sequences\<close>

lemma received_map_Receive [simp]: "received (map Receive ms) = ms"
  by (induction ms) auto

lemma received_append [simp]: "received (ins @ js) = received ins @ received js"
  by (induction ins rule: received.induct) auto

lemma last_presence_snoc [simp]:
  "last_presence (ms @ [m]) = (case presence_payload m of Some es \<Rightarrow> Some es | None \<Rightarrow> last_presence ms)"
  by (induction ms) (auto split: option.split)

lemma last_online_users_msgs_to: "last_online_users k out = last_presence (msgs_to k out)"
  by (induction out) (auto simp: msgs_to_def split: option.split)

lemma msgs_to_append [simp]: "msgs_to k (out @ out') = msgs_to k out @ msgs_to k out'"
  by (simp add: msgs_to_def)

lemma msgs_to_emits [simp]:
  "msgs_to k (outbox (emit sid m s)) = msgs_to k (outbox s) @ (if sid = k \<and> k \<in> set (sockets s) then [m] else [])"
  "msgs_to k (outbox (io_emit m s)) = msgs_to k (outbox s) @ map (\<lambda>_. m) (filter (\<lambda>r. r = k) (sockets s))"
  "msgs_to k (outbox (io_to r m s)) = msgs_to k (outbox s) @ map (\<lambda>_. m) (filter (\<lambda>x. x = r \<and> x = k) (sockets s))"
  by (auto simp: emit_defs msgs_to_def filter_map comp_def intro: filter_cong)

lemma msgs_to_map [simp]: "msgs_to k (map (\<lambda>r. (r, m)) ks) = map (\<lambda>_. m) (filter (\<lambda>r. r = k) ks)"
  by (induction ks) (auto simp: msgs_to_def)

lemma settled_snoc [simp]:
  "settled (ms @ [m]) =
     (case m of OnlineUsers _ \<Rightarrow> True | LoginSuccess _ _ \<Rightarrow> False | LogoutSuccess \<Rightarrow> False
      | _ \<Rightarrow> settled ms)"
  by (cases m) (simp_all add: settled_def)

lemma settled_append_plain:
  "plain_msg m \<Longrightarrow> settled (ms @ map (\<lambda>_. m) xs) = settled ms"
  by (induction xs rule: rev_induct) (auto simp flip: append_assoc split: server_msg.split)

lemma settled_append_presence:
  "xs \<noteq> [] \<Longrightarrow> settled (ms @ map (\<lambda>_. OnlineUsers es) xs)"
  by (induction xs rule: rev_induct) (auto simp flip: append_assoc)

lemma settled_plain_list:
  "list_all (\<lambda>(r, m). plain_msg m) ns \<Longrightarrow> settled (ms @ msgs_to k ns) = settled ms"
  by (induction ns rule: rev_induct) (auto simp: msgs_to_def simp flip: append_assoc split: server_msg.split)

subsection \<open>The server keeps every live socket settled\<close>

lemma presence_settled_after:
  "loud s' \<or> quiet s s' \<or> crashed s' \<Longrightarrow> presence_settled s \<Longrightarrow> presence_settled s'"
proof (elim disjE)
  assume "loud s'"
  then obtain s'' where s': "s' = broadcast_online s''" by (auto simp: loud_def)
  show ?thesis
    unfolding presence_settled_def s'
    by (auto simp: broadcast_online_def filter_empty_conv intro!: settled_append_presence)
next
  assume "quiet s s'" and "presence_settled s"
  then show ?thesis by (auto simp: quiet_def presence_settled_def settled_plain_list)
next
  assume "crashed s'"
  then show ?thesis by (auto simp: crashed_def presence_settled_def)
qed

lemma sys_step_presence_settled:
  "sys_step H s s' \<Longrightarrow> presence_settled s \<Longrightarrow> presence_settled s'"
proof (induction rule: sys_step.induct)
  case (connect sid s)
  then have "msgs_to sid (outbox s) = []"
    by (force simp: msgs_to_def filter_empty_conv)
  with connect show ?case
    by (auto simp: presence_settled_def on_connection_def settled_def)
next
  case (event sid s ev)
  then show ?case using handle_event_presence by (blast intro: presence_settled_after)
next
  case (resume i s salt rnd now)
  then have "presence_settled (drop_task i s)" by (simp add: presence_settled_def)
  then show ?case using run_task_presence by (blast intro: presence_settled_after)
next
  case (abort i s)
  then show ?case by (simp add: presence_settled_def)
next
  case (disconnect sid s)
  show ?case
    by (rule presence_settled_after [OF _ disconnect.prems]) (auto simp: on_disconnect_def loud_def)
qed

lemma reach_presence_settled: "reach H db s \<Longrightarrow> presence_settled s"
  by (induction rule: reach.induct)
     (simp add: presence_settled_def init_server_def, blast intro: sys_step_presence_settled)

subsection \<open>The browser's list follows the last presence message\<close>

lemma client_step_plain:
  "(\<And>m. i = Receive m \<Longrightarrow> plain_msg m) \<Longrightarrow>
   usersList (client_step c i) = usersList c \<and> myUsername (client_step c i) = myUsername c"
  by (cases i rule: client_input.exhaust)
     (auto simp: on_connect_def click_register_def click_login_def click_logout_def emit_event_def
       send_message_def open_private_chat_def update_private_list_def Let_def
       on_public_message_client_def on_private_message_client_def
       split: option.split elim!: plain_msg.elims)

lemma run_browser_snoc [simp]: "run_browser (ins @ [i]) c = client_step (run_browser ins c) i"
  by (simp add: run_browser_def)

lemma usersList_online_users_idem:
  "usersList (on_online_users es (on_online_users es c)) = usersList (on_online_users es c)"
  by (simp add: on_online_users_def)

lemma run_browser_users:
  "settled (received ins) \<Longrightarrow> last_presence (received ins) = Some es \<Longrightarrow>
   usersList (run_browser ins c) = usersList (on_online_users es (run_browser ins c))"
proof (induction ins arbitrary: es rule: rev_induct)
  case (snoc i ins)
  show ?case
  proof (cases "\<exists>m. i = Receive m \<and> \<not> plain_msg m")
    case True
    then obtain m where i: "i = Receive m" and m: "\<not> plain_msg m" by blast
    show ?thesis
    proof (cases m)
      case (OnlineUsers es')
      with snoc.prems i show ?thesis by (simp add: usersList_online_users_idem on_online_users_def)
    qed (use snoc.prems i m in auto)
  next
    case False
    then have p: "\<And>m. i = Receive m \<Longrightarrow> plain_msg m" by blast
    then have "settled (received ins) \<and> last_presence (received ins) = Some es"
      using snoc.prems by (cases i) (auto simp: plain_msg_presence elim!: plain_msg.elims)
    with snoc.IH client_step_plain [OF p, where c = "run_browser ins c"] show ?thesis
      by (simp add: on_online_users_def)
  qed
qed (simp add: run_browser_def)

subsection \<open>End to end\<close>

text \<open>
  C31. What a browser shows is the registry (spec P2 at the browser): in every reachable
  state, a connected browser that has handled every message the server sent it, interleaved
  in any way with its user's inputs, and has received at least one presence list, shows
  exactly the list it would build from the current registry: the bound connections other
  than its own user, with their names and in registry order.
\<close>

theorem reach_browser_users_current:
  assumes "reach H db s" and "k \<in> set (sockets s)" and "received ins = msgs_to k (outbox s)"
    and "last_online_users k (outbox s) \<noteq> None"
  shows "usersList (run_browser ins c) = usersList (on_online_users (obj_values (online s)) (run_browser ins c))"
proof -
  from assms(4) obtain es where es: "last_online_users k (outbox s) = Some es" by blast
  have bv: "bound_view es = bound_view (obj_values (online s))"
    using reach_presence_ok [OF assms(1)] assms(2) es by (simp add: presence_ok_def)
  have "settled (received ins)"
    using reach_presence_settled [OF assms(1)] assms(2,3) by (simp add: presence_settled_def)
  moreover have "last_presence (received ins) = Some es"
    using es assms(3) by (simp add: last_online_users_msgs_to)
  ultimately have "usersList (run_browser ins c) = usersList (on_online_users es (run_browser ins c))"
    by (rule run_browser_users)
  also have "\<dots> = usersList (on_online_users (obj_values (online s)) (run_browser ins c))"
    by (metis bv usersList_bound_view)
  finally show ?thesis .
qed

theorem reach_browser_users_current_witness:
  "reach scenario_kdf scenario_db scenario_state \<and> ''A'' \<in> set (sockets scenario_state)
   \<and> received (OpenPrivate ''B'' (JStr ''bob'') # map Receive (msgs_to ''A'' (outbox scenario_state)))
       = msgs_to ''A'' (outbox scenario_state)
   \<and> last_online_users ''A'' (outbox scenario_state) \<noteq> None
   \<and> usersList (run_browser (OpenPrivate ''B'' (JStr ''bob'') # map Receive (msgs_to ''A'' (outbox scenario_state)))
       (init_client None))
     = usersList (on_online_users (obj_values (online scenario_state))
         (run_browser (OpenPrivate ''B'' (JStr ''bob'') # map Receive (msgs_to ''A'' (outbox scenario_state)))
           (init_client None)))"
proof -
  have a: "''A'' \<in> set (sockets scenario_state)" unfolding scenario_state_def by code_simp
  have l: "last_online_users ''A'' (outbox scenario_state) \<noteq> None" unfolding scenario_state_def by code_simp
  show ?thesis
    using reach_browser_users_current [OF scenario_reach a _ l,
        of "OpenPrivate ''B'' (JStr ''bob'') # map Receive (msgs_to ''A'' (outbox scenario_state))"
           "init_client None"]
      scenario_reach a l by simp
qed

text \<open>
  C33. A private message goes from one browser to the other's thread (spec P3 end to end):
  in every reachable state, when browser b, in a private view on a connected socket a, sends
  a non-empty text, it emits \<open>private_message\<close> to a; the server's handling of that
  event adds exactly one message to what a receives, carrying b's name, the text and b's
  socket id; and a's browser appends it to its thread for b.
\<close>

theorem reach_private_send_displayed:
  assumes "reach H db s" and "obj_get (online s) b = Some eb" and "a \<in> set (sockets s)"
    and "currentChat cb = PrivateView" and "activePrivateSocketId cb = Some a" and "txt \<noteq> []"
  shows "emitted (client_step cb (Send txt)) = emitted cb @ [PrivateMsg a txt]
    \<and> msgs_to a (outbox (handle_event b (PrivateMsg a txt) s))
        = msgs_to a (outbox s) @ [PrivateMessage (username eb) txt b]
    \<and> fst (thread (client_step ca (Receive (PrivateMessage (username eb) txt b))) b)
        = fst (thread ca b) @ [(json_wire (username eb), txt)]"
proof -
  have e: "emitted (client_step cb (Send txt)) = emitted cb @ [PrivateMsg a txt]"
    using assms(4-6) by (simp add: send_message_def emit_event_def Let_def)
  have r: "registry_ok s" using assms(1) by (rule reach_registry_ok)
  then have "on_private_message b a txt s = s\<lparr>outbox := outbox s @ [(a, PrivateMessage (username eb) txt b)]\<rparr>"
    using assms(2,3) by (intro private_message_live) (simp_all add: registry_ok_def)
  then have m: "msgs_to a (outbox (handle_event b (PrivateMsg a txt) s))
        = msgs_to a (outbox s) @ [PrivateMessage (username eb) txt b]"
    by (simp add: msgs_to_def)
  have "fst (thread (client_step ca (Receive (PrivateMessage (username eb) txt b))) b)
        = fst (thread ca b) @ [(json_wire (username eb), txt)]"
    by (simp add: thread_private_message_client)
  with e m show ?thesis by simp
qed

theorem reach_private_send_displayed_witness:
  "reach scenario_kdf scenario_db scenario_state
   \<and> obj_get (online scenario_state) ''B'' = Some \<lparr>socketId = ''B'', username = JStr ''bob''\<rparr>
   \<and> ''A'' \<in> set (sockets scenario_state)
   \<and> currentChat (open_private_chat ''A'' (JStr ''alice'') (init_client None)) = PrivateView
   \<and> activePrivateSocketId (open_private_chat ''A'' (JStr ''alice'') (init_client None)) = Some ''A''
   \<and> ''yo'' \<noteq> []
   \<and> msgs_to ''A'' (outbox (handle_event ''B'' (PrivateMsg ''A'' ''yo'') scenario_state))
       = msgs_to ''A'' (outbox scenario_state) @ [PrivateMessage (JStr ''bob'') ''yo'' ''B'']
   \<and> fst (thread (client_step (init_client None) (Receive (PrivateMessage (JStr ''bob'') ''yo'' ''B''))) ''B'')
       = [(JStr ''bob'', ''yo'')]"
proof -
  have g: "obj_get (online scenario_state) ''B'' = Some \<lparr>socketId = ''B'', username = JStr ''bob''\<rparr>"
    unfolding scenario_state_def by code_simp
  have a: "''A'' \<in> set (sockets scenario_state)" unfolding scenario_state_def by code_simp
  have v: "currentChat (open_private_chat ''A'' (JStr ''alice'') (init_client None)) = PrivateView"
    "activePrivateSocketId (open_private_chat ''A'' (JStr ''alice'') (init_client None)) = Some ''A''"
    by (simp_all add: open_private_chat_def update_private_list_def Let_def)
  have t: "fst (thread (init_client None) ''B'') = []" by (simp add: thread_def init_client_def obj_get_def)
  show ?thesis
    using reach_private_send_displayed [OF scenario_reach g a v, of "''yo''" "init_client None"]
      scenario_reach g a v t by (simp add: json_wire_def)
qed

end
