(* ===== verification/Render.thy ===== *)
theory Render
  imports System Client
begin

text \<open>
  The DOM writes of script.js. The chat pane \<open>messages\<close> is an HTML element that the
  client only ever clears (\<open>innerHTML = ""\<close>) or extends (\<open>innerHTML += ...\<close>) by one
  line \<open><p><b>${from}:</b> ${text}</p>\<close> per message, with both values interpolated
  unescaped. \<open>render_line\<close> is that template, \<open>render_thread\<close> the re-rendering
  of a private thread in \<open>openPrivateChat\<close>; the \<open>html_\<close> functions are the writes
  of each handler on the pane's current HTML string, in the order the code makes them, and
  \<open>html_step\<close> dispatches them like \<open>client_step\<close>. The user list, the private-chat
  list and the title are set through \<open>innerText\<close>, so their text is never parsed.
  \<open>pane_html\<close> is the abstraction from the client model to the pane's HTML.
  \<open>html_tags\<close> lists the start tags the browser's HTML tokenizer finds in a string in
  its data state: a \<open><\<close> followed by an ASCII letter opens a tag whose name runs to
  the next space, \<open>/\<close> or \<open>>\<close>.
\<close>

definition render_line :: "jsval \<times> string \<Rightarrow> string" where
  "render_line l = ''<p><b>'' @ js_string (fst l) @ '':</b> '' @ snd l @ ''</p>''"

definition render_thread :: "(jsval \<times> string) list \<Rightarrow> string" where
  "render_thread ms = concat (map render_line ms)"

definition pane_html :: "client \<Rightarrow> string" where
  "pane_html c = render_thread (messages c)"

definition html_logout_success :: "string \<Rightarrow> string" where
  "html_logout_success h = []"

definition html_public :: "string \<Rightarrow> jsval \<Rightarrow> string \<Rightarrow> client \<Rightarrow> string" where
  "html_public h from msg c =
     (if currentChat c = PublicView \<and> \<not> js_same (json_wire from) (myUsername c)
      then h @ render_line (json_wire from, msg) else h)"

definition html_private :: "string \<Rightarrow> jsval \<Rightarrow> string \<Rightarrow> sid \<Rightarrow> client \<Rightarrow> string" where
  "html_private h from msg k c =
     (if currentChat c \<noteq> PrivateView \<or> activePrivateSocketId c \<noteq> Some k then h
      else h @ render_line (json_wire from, msg))"

definition html_send :: "string \<Rightarrow> string \<Rightarrow> client \<Rightarrow> string" where
  "html_send h txt c =
     (if txt = [] then h
      else if currentChat c = PublicView then h @ render_line (JStr ''You'', txt)
      else if (case activePrivateSocketId c of Some k \<Rightarrow> k | None \<Rightarrow> ''null'')
                \<notin> set (obj_keys (privateChats c)) then h
      else h @ render_line (JStr ''You'', txt))"

definition html_open :: "sid \<Rightarrow> jsval \<Rightarrow> client \<Rightarrow> string" where
  "html_open k u c =
     (case obj_get (privateChats c) k of
        None \<Rightarrow> []
      | Some ch \<Rightarrow> render_thread (pc_messages ch))"

fun html_step :: "string \<Rightarrow> client \<Rightarrow> client_input \<Rightarrow> string" where
  "html_step h c (Receive LogoutSuccess) = html_logout_success h"
| "html_step h c (Receive (PublicMessage f m)) = html_public h f m c"
| "html_step h c (Receive (PrivateMessage f m k)) = html_private h f m k c"
| "html_step h c (Send txt) = html_send h txt c"
| "html_step h c (OpenPrivate k u) = html_open k u c"
| "html_step h c _ = h"

definition tag_start :: "char \<Rightarrow> bool" where
  "tag_start ch \<longleftrightarrow> (65::nat) \<le> of_char ch \<and> of_char ch \<le> (90::nat) \<or> (97::nat) \<le> of_char ch \<and> of_char ch \<le> (122::nat)"

definition tag_name_char :: "char \<Rightarrow> bool" where
  "tag_name_char ch \<longleftrightarrow> \<not> js_space ch \<and> ch \<noteq> CHR ''/'' \<and> ch \<noteq> CHR ''>''"

fun html_tags :: "string \<Rightarrow> string list" where
  "html_tags [] = []"
| "html_tags (ch # cs) =
     (if ch = CHR ''<'' \<and> cs \<noteq> [] \<and> tag_start (hd cs) then [takeWhile tag_name_char cs] else [])
     @ html_tags cs"

subsection \<open>The pane's HTML is the rendering of the modelled pane\<close>

lemma html_open_chat:
  "html_open k u c = render_thread (case obj_get (privateChats (open_private_chat k u c)) k of
                                      Some ch \<Rightarrow> pc_messages ch | None \<Rightarrow> [])"
  by (auto simp: html_open_def open_private_chat_def update_private_list_def obj_get_modify obj_get_set render_thread_def
      Let_def split: option.split)

lemma messages_open_private_chat:
  "messages (open_private_chat k u c) = (case obj_get (privateChats (open_private_chat k u c)) k of
                                           Some ch \<Rightarrow> pc_messages ch | None \<Rightarrow> [])"
  by (simp add: open_private_chat_def update_private_list_def Let_def)

lemma render_thread_snoc [simp]: "render_thread (ms @ [l]) = render_thread ms @ render_line l"
  by (simp add: render_thread_def)

text \<open>
  The structured pane abstracts the DOM: for every client state and every input, the HTML string the handler leaves in the pane (its writes applied to the
  rendering of the old pane) is the rendering of the new modelled pane.
\<close>

lemma html_step_refines:
  "html_step (pane_html c) c i = pane_html (client_step c i)"
proof (cases i)
  case (Receive m)
  then show ?thesis
    by (cases m) (simp_all add: pane_html_def html_logout_success_def on_logout_success_def
        render_thread_def html_public_def on_public_message_client_def html_private_def
        on_private_message_client_def update_private_list_def on_login_success_def on_online_users_def
        Let_def)
next
  case (Send t)
  then show ?thesis
    by (simp add: pane_html_def html_send_def send_message_def emit_event_def Let_def)
next
  case (OpenPrivate k u)
  then show ?thesis
    by (simp add: pane_html_def html_open_chat messages_open_private_chat)
qed (simp_all add: pane_html_def on_connect_def click_register_def click_login_def click_logout_def
       emit_event_def Let_def split: option.split)

subsection \<open>Message text is parsed as markup\<close>

lemma html_tags_append: "\<exists>zs. html_tags (xs @ ys) = zs @ html_tags ys"
proof (induction xs)
  case (Cons ch xs)
  then obtain zs where "html_tags (xs @ ys) = zs @ html_tags ys" by blast
  then show ?case by (simp only: append_Cons html_tags.simps(2)) (metis append.assoc)
qed simp

lemma takeWhile_tag_name:
  "list_all tag_name_char n \<Longrightarrow> \<not> tag_name_char d \<Longrightarrow> takeWhile tag_name_char (n @ d # r) = n"
  by (induction n) auto

lemma html_tags_injected:
  assumes "n \<noteq> []" and "tag_start (hd n)" and "list_all tag_name_char n" and "\<not> tag_name_char d"
  shows "n \<in> set (html_tags (pre @ CHR ''<'' # n @ d # r))"
proof -
  obtain zs where "html_tags (pre @ CHR ''<'' # n @ d # r) = zs @ html_tags (CHR ''<'' # n @ d # r)"
    using html_tags_append by blast
  moreover have "n \<in> set (html_tags (CHR ''<'' # n @ d # r))"
    using assms by (simp add: takeWhile_tag_name)
  ultimately show ?thesis by simp
qed

text \<open>
  C26. Stored cross-site scripting: a public message is parsed as HTML in every other
  browser. When a connection bound to a username sends a public message that starts with a
  tag (\<open><img src=x onerror=...>\<close>), the server delivers it verbatim to every connected
  socket, and a browser in the public view logged in under another name appends it to its
  pane, where the tokenizer reads that tag as an element.
\<close>

theorem public_message_markup_rendered:
  assumes "obj_get (online s) b = Some eb" and "truthy (username eb)" and "k \<in> set (sockets s)"
    and "currentChat c = PublicView" and "\<not> js_same (json_wire (username eb)) (myUsername c)"
    and "n \<noteq> []" and "tag_start (hd n)" and "list_all tag_name_char n" and "\<not> tag_name_char d"
  shows "(k, PublicMessage (username eb) (CHR ''<'' # n @ d # r))
           \<in> set (outbox (handle_event b (PublicMsg (CHR ''<'' # n @ d # r)) s))
         \<and> n \<in> set (html_tags (pane_html (client_step c (Receive (PublicMessage (username eb) (CHR ''<'' # n @ d # r))))))"
proof
  show "(k, PublicMessage (username eb) (CHR ''<'' # n @ d # r))
          \<in> set (outbox (handle_event b (PublicMsg (CHR ''<'' # n @ d # r)) s))"
    using assms(1-3) by (simp add: on_public_message_def io_emit_def)
  have "pane_html (client_step c (Receive (PublicMessage (username eb) (CHR ''<'' # n @ d # r))))
        = (pane_html c @ ''<p><b>'' @ js_string (json_wire (username eb)) @ '':</b> '')
            @ CHR ''<'' # n @ d # (r @ ''</p>'')"
    using assms(4,5) by (simp add: pane_html_def on_public_message_client_def render_line_def)
  then show "n \<in> set (html_tags (pane_html (client_step c (Receive (PublicMessage (username eb) (CHR ''<'' # n @ d # r))))))"
    using html_tags_injected [OF assms(6-9),
        of "pane_html c @ ''<p><b>'' @ js_string (json_wire (username eb)) @ '':</b> ''" "r @ ''</p>''"]
    by simp
qed

theorem public_message_markup_rendered_witness:
  "obj_get (online scenario_state) ''B'' = Some \<lparr>socketId = ''B'', username = JStr ''bob''\<rparr>
   \<and> truthy (JStr ''bob'') \<and> ''A'' \<in> set (sockets scenario_state)
   \<and> currentChat (on_login_success (JStr ''alice'') ''ab'' (init_client None)) = PublicView
   \<and> \<not> js_same (json_wire (JStr ''bob'')) (myUsername (on_login_success (JStr ''alice'') ''ab'' (init_client None)))
   \<and> ''img'' \<noteq> [] \<and> tag_start (hd ''img'') \<and> list_all tag_name_char ''img'' \<and> \<not> tag_name_char (CHR '' '')
   \<and> (''A'', PublicMessage (JStr ''bob'') ''<img src=x onerror=alert(1)>'')
        \<in> set (outbox (handle_event ''B'' (PublicMsg ''<img src=x onerror=alert(1)>'') scenario_state))
   \<and> ''img'' \<in> set (html_tags (pane_html (client_step (on_login_success (JStr ''alice'') ''ab'' (init_client None))
        (Receive (PublicMessage (JStr ''bob'') ''<img src=x onerror=alert(1)>'')))))"
proof -
  have g: "obj_get (online scenario_state) ''B'' = Some \<lparr>socketId = ''B'', username = JStr ''bob''\<rparr>"
    unfolding scenario_state_def by code_simp
  have a: "''A'' \<in> set (sockets scenario_state)" unfolding scenario_state_def by code_simp
  have v: "currentChat (on_login_success (JStr ''alice'') ''ab'' (init_client None)) = PublicView"
    "\<not> js_same (json_wire (JStr ''bob'')) (myUsername (on_login_success (JStr ''alice'') ''ab'' (init_client None)))"
    by (simp_all add: on_login_success_def init_client_def json_wire_def js_same_def)
  have t: "tag_start (hd ''img'')" "list_all tag_name_char ''img''" "\<not> tag_name_char (CHR '' '')"
    by (simp_all add: tag_start_def tag_name_char_def js_space_def)
  have "(''A'', PublicMessage (JStr ''bob'') ''<img src=x onerror=alert(1)>'')
        \<in> set (outbox (handle_event ''B'' (PublicMsg ''<img src=x onerror=alert(1)>'') scenario_state))
      \<and> ''img'' \<in> set (html_tags (pane_html (client_step (on_login_success (JStr ''alice'') ''ab'' (init_client None))
        (Receive (PublicMessage (JStr ''bob'') ''<img src=x onerror=alert(1)>'')))))"
    using public_message_markup_rendered [OF g _ a, where c = "on_login_success (JStr ''alice'') ''ab'' (init_client None)"
        and n = "''img''" and d = "CHR '' ''" and r = "''src=x onerror=alert(1)>''"] v t
    by simp
  then show ?thesis using g a v t by simp
qed

end
