(* ===== verification/Spec2Isabelle.thy ===== *)
theory Spec2Isabelle
  imports Liveness Typing Browser Render
begin

text \<open>
  \<^bold>\<open>A verified model of the anonymous-chat relay.\<close>

  \<^emph>\<open>The program.\<close> src/server/server.js is a socket.io server. Per connection it keeps an
  entry in the object \<open>onlineUsers\<close> (socket id \<open>\<mapsto>\<close> \<open>{socketId, username}\<close>, the
  connection registry), keeps login tokens in the object \<open>sessions\<close> (token \<open>\<mapsto>\<close>
  username, the session registry), stores users in MongoDB (\<open>User\<close>, with bcrypt password
  hashes), and reacts to the events \<open>register\<close>, \<open>login\<close> (both async),
  \<open>auto_login\<close>, \<open>logout\<close>, \<open>public_message\<close>, \<open>private_message\<close> and
  \<open>disconnect\<close>. Every change of the registry that binds, unbinds or removes a user is
  followed by an \<open>online_users\<close> broadcast of \<open>Object.values(onlineUsers)\<close>.
  src/client/script.js is the browser client: it auto-logs in with a stored token, rebuilds
  its user list from each \<open>online_users\<close> event, and groups private messages by sender.

  \<^emph>\<open>The theories.\<close>
  \<^item> Prelude.thy: JavaScript objects as insertion-ordered association lists
    (\<open>obj_get\<close>, \<open>obj_set\<close>, \<open>obj_delete\<close>, \<open>obj_modify\<close>), JavaScript values
    \<open>jsval\<close> with \<open>truthy\<close>, and the properties inherited from \<open>Object.prototype\<close>.
  \<^item> HexToken.thy: the session token of server.js line 101 as the lowercase hex encoding of
    the random bytes (8-bit words), with its decoder.
  \<^item> Credentials.thy: the \<open>User\<close> collection (lines 31-37) as a map whose key is the
    unique index; \<open>find_user\<close>, \<open>create_user\<close> (duplicate key as an error value);
    \<open>bcrypt_hash\<close>, \<open>bcrypt_compare\<close> over a digest-function parameter.
  \<^item> Registry.thy: \<open>onlineUsers\<close> and \<open>sessions\<close> and the operations the handlers
    perform on them (\<open>register_conn\<close>, \<open>already_online\<close>, \<open>set_username\<close>,
    \<open>remove_conn\<close>, \<open>create_session\<close>, \<open>session_lookup\<close>, \<open>destroy_session\<close>).
  \<^item> Server.thy: the state record \<open>server\<close> (store, both registries, the connected
    sockets, the outbox of deliveries, the pending continuations) and one definition per
    handler: \<open>on_connection\<close>, \<open>on_register\<close>/\<open>register_found\<close>/\<open>register_create\<close>,
    \<open>on_login\<close>/\<open>login_found\<close>/\<open>login_tail\<close>, \<open>on_auto_login\<close>, \<open>on_logout\<close>,
    \<open>on_public_message\<close>, \<open>on_private_message\<close>, \<open>on_disconnect\<close>. The async
    handlers are cut at their \<open>await\<close>s; each later part is a \<open>task\<close> that runs when
    the scheduler chooses, against the state of that moment. An exception that escapes
    an async handler (no handler has a try/catch) is an unhandled rejection, which ends the
    Node process: \<open>restart\<close> is the server the host starts again (empty registries, no
    connection, no suspended handler, the store and the messages already sent kept);
    \<open>task_fail\<close> is a continuation whose awaited promise rejects.
  \<^item> System.thy: the event loop as the inductive relation \<open>sys_step\<close> (a fresh socket
    connects, a connected socket sends an event, any pending continuation resumes with
    the random bytes, salt and time it draws, or fails because its awaited promise rejects
    and the process restarts, a socket disconnects) and \<open>reach\<close>; an executable
    scheduler \<open>sched_step\<close>/\<open>run_sched\<close> whose runs are runs of \<open>sys_step\<close>
    (witness states are computed with it); the invariants and the properties of the
    running server. Each invariant proof treats a step in three ways: it announces the
    registry (\<open>loud\<close>), it adds only plain messages (\<open>quiet\<close>), or it restarts
    (\<open>crashed\<close>).
  \<^item> Liveness.thy: the runs of the event loop that complete a login and a registration,
    and the runs that end in a restart (a login whose socket left while bcrypt ran, a
    rejected database call).
  \<^item> Typing.thy: the type of the username slot (\<open>slot_ok\<close>: null, a string or an
    \<open>Object.prototype\<close> member), lifted to messages and states, preserved by every step.
  \<^item> Client.thy: the browser client (script.js) as the record \<open>client\<close> (its variables
    and what the DOM shows: pane, user list, private-chat list, title), one definition per
    listener and UI function (\<open>on_connect\<close>, \<open>click_login\<close>, \<open>on_online_users\<close>,
    \<open>on_public_message_client\<close>, \<open>on_private_message_client\<close>, \<open>send_message\<close>,
    \<open>open_private_chat\<close>, \<open>update_private_list\<close>, ...) and \<open>client_step\<close>
    dispatching one input. Values cross the wire as JSON (\<open>json_wire\<close>: an
    inherited function is dropped, \<open>Object.prototype\<close> arrives as a fresh \<open>{}\<close>),
    and \<open>===\<close> on received values is \<open>js_same\<close> (objects are never equal).
  \<^item> Render.thy: the DOM writes of the client: the chat line template
    (\<open>render_line\<close>), the \<open>innerHTML\<close> writes of each handler on the pane's HTML
    string (\<open>html_public\<close>, \<open>html_private\<close>, \<open>html_send\<close>, \<open>html_open\<close>,
    \<open>html_logout_success\<close>, dispatched by \<open>html_step\<close>), the abstraction
    \<open>pane_html\<close> from the client model, and \<open>html_tags\<close>, the start tags the
    browser's tokenizer finds in a string.
  \<^item> Browser.thy: a browser attached to a socket: the messages sent to it
    (\<open>msgs_to\<close>), a run of its inputs (\<open>run_browser\<close>, server messages interleaved
    with user inputs), and the server invariant \<open>presence_settled\<close> (no
    \<open>login_success\<close>/\<open>logout_success\<close> after a socket's last \<open>online_users\<close>).
  \<^item> This theory: the properties that span server and client.

  \<^emph>\<open>What is proved.\<close> Over every reachable state: the registry's keys are the
  connected sockets (I3); every socket's last presence list shows the current
  authenticated connections (P2); sessions and bound names refer to registered users
  (I2); the store is append-only; private messages reach exactly their live target (P3).
  Per handler: absent targets and unauthenticated public messages are dropped (P4, P6);
  a login race binds one connection and rejects the other (P1); the session token round
  trip (P5); register-then-login; logout. Findings, proved as theorems: \<open>auto_login\<close>
  breaks I1 (a reachable state binds one user on two connections); a duplicate-key
  failure of \<open>User.create\<close>, a login whose socket left while bcrypt ran, and any
  rejected database call each crash the process, which closes every connection and
  drops every session (a token issued before no longer authenticates); a token naming an
  \<open>Object.prototype\<close> member authenticates through \<open>auto_login\<close>; the events of
  one connection are not serialized, so a login sent right after a registration of the
  same account is rejected before the registration completes.
  Progress: a correct login of an offline user and a registration of a free name can
  always be completed (liveness, as a run of the event loop). Typing: the username slot
  and every username sent to a client is null, a string or a prototype member, never
  undefined. DOM: the HTML string the handlers build in the chat pane is the rendering of
  the modelled pane (\<open>html_step_refines\<close>, used to transfer the client lemmas), and
  message text goes into it unescaped, so a public message starting with a tag becomes an
  element in every other browser (stored XSS).
  Client: every input keeps the pane consistent with the open chat (\<open>view_ok\<close>);
  private messages are grouped per sending socket with an exact unread count; a public
  message under the client's own name is dropped as an echo; the stored token round trip
  across a reload. Across both: a client's user list always equals the one it would build
  from the current registry; a browser that has handled everything sent to it, whatever
  the interleaving with its user's inputs, shows the current online users; a private
  message typed in one browser is routed to its target and lands in that browser's thread
  for the sender (Browser.thy).

  \<^emph>\<open>Bounds and choices.\<close> No loop of the program is unbounded (the handlers walk finite
  objects), so every definition is a total function and no fuel is needed; runs are
  finite schedules. Socket ids are assumed fresh on connection (socket.io draws them at
  random), so no socket id names an \<open>Object.prototype\<close> member and the client's
  \<open>privateChats\<close> lookups read own properties only. Payloads are strings, as the client
  sends them.

  \<^emph>\<open>Not modelled.\<close> The Express/HTTP setup and the MongoDB connection (server.js lines
  1-26, 171-177): they create the app, the socket.io server with CORS origin \<open>*\<close> (so any
  page may connect, which the unguarded connect step reflects), start listening and log the
  outcome of \<open>mongoose.connect\<close>; they hold no state that a handler reads, and a failed
  connection shows up only as rejected database calls, which the \<open>abort\<close> step models
  (as a crash and restart; the restart itself, by the host, is outside server.js).
  Also not modelled: non-string payloads (a Mongo query object as username), the bcrypt
  digest itself (a parameter), the DOM element lookups of script.js lines 7-20 and the
  creation of list items (the lists are modelled as the text they show);
  \<open>html_tags\<close> is the tokenizer in its data state, which a pane of plain-text lines
  keeps it in, not a full HTML parser. The client listener of \<open>private_message\<close>
  is modelled as intended: as written, script.js line 145 does not close the call.
\<close>

text \<open>
  The scenario of spec section 8 on the server side: alice logs in on socket A, bob on
  socket B, bob sends "hi" privately to A. A receives \<open>{from: bob, message: hi, socketId: B}\<close>
  and is the only socket that receives a private message; when A disconnects, B's presence
  list lists bob alone.
\<close>

lemma scenario_outcome:
  "filter (\<lambda>(k, m). case m of PrivateMessage _ _ _ \<Rightarrow> True | _ \<Rightarrow> False) (outbox scenario_state)
     = [(''A'', PrivateMessage (JStr ''bob'') ''hi'' ''B'')]
   \<and> bound_view (the (last_online_users ''B'' (outbox (on_disconnect ''A'' scenario_state))))
     = [\<lparr>socketId = ''B'', username = JStr ''bob''\<rparr>]"
proof -
  have p: "filter (\<lambda>(k, m). case m of PrivateMessage _ _ _ \<Rightarrow> True | _ \<Rightarrow> False) (outbox scenario_state)
     = [(''A'', PrivateMessage (JStr ''bob'') ''hi'' ''B'')]"
    unfolding scenario_state_def by code_simp
  have d: "bound_view (the (last_online_users ''B'' (outbox (on_disconnect ''A'' scenario_state))))
     = [\<lparr>socketId = ''B'', username = JStr ''bob''\<rparr>]"
    unfolding scenario_state_def by code_simp
  from p d show ?thesis ..
qed

text \<open>
  C27. What a browser shows is current: in every reachable state, the user list a connected
  client builds from the last \<open>online_users\<close> it received is the list it would build from
  the registry as it is now.
\<close>

theorem reach_client_users_current:
  assumes "reach H db s" and "k \<in> set (sockets s)" and "last_online_users k (outbox s) = Some es"
  shows "usersList (on_online_users es c) = usersList (on_online_users (obj_values (online s)) c)"
proof -
  have "bound_view es = bound_view (obj_values (online s))"
    using reach_presence_ok [OF assms(1)] assms(2,3) by (simp add: presence_ok_def)
  then show ?thesis by (metis Client.usersList_bound_view)
qed

theorem reach_client_users_current_witness:
  "reach scenario_kdf scenario_db scenario_state \<and> ''A'' \<in> set (sockets scenario_state)
   \<and> last_online_users ''A'' (outbox scenario_state)
        = Some [\<lparr>socketId = ''A'', username = JStr ''alice''\<rparr>, \<lparr>socketId = ''B'', username = JStr ''bob''\<rparr>]
   \<and> usersList (on_online_users
        [\<lparr>socketId = ''A'', username = JStr ''alice''\<rparr>, \<lparr>socketId = ''B'', username = JStr ''bob''\<rparr>]
        (on_login_success (JStr ''alice'') ''ab'' (init_client None)))
     = usersList (on_online_users (obj_values (online scenario_state))
        (on_login_success (JStr ''alice'') ''ab'' (init_client None)))"
proof -
  have k: "''A'' \<in> set (sockets scenario_state)" unfolding scenario_state_def by code_simp
  have l: "last_online_users ''A'' (outbox scenario_state)
        = Some [\<lparr>socketId = ''A'', username = JStr ''alice''\<rparr>, \<lparr>socketId = ''B'', username = JStr ''bob''\<rparr>]"
    unfolding scenario_state_def by code_simp
  show ?thesis
    using reach_client_users_current [OF scenario_reach k l,
        of "on_login_success (JStr ''alice'') ''ab'' (init_client None)"] scenario_reach k l by simp
qed

end
